theory Spec2Isabelle
  imports Complex_Main "HOL-Library.Word"
begin

section \<open>Documents, anonymous labels and instance methods\<close>

text \<open>
  A shallow embedding of \<^verbatim>\<open>backend/models/Post.js\<close>,
  \<^verbatim>\<open>backend/models/Comment.js\<close>, the validators of
  \<^verbatim>\<open>backend/middleware/security.js\<close> and the read routes of the posts
  router of the AnonForum backend.

  Conventions.
  \<^item> A JavaScript string is a \<open>string\<close>: a list of bytes holding UTF-8. On ASCII
    text one byte is one code unit, and the regular expressions of the validators are
    modelled on such text.
  \<^item> A JavaScript number that the code uses as an integer (counters, millisecond
    timestamps) is an \<open>int\<close>.
  \<^item> A \<^verbatim>\<open>Date\<close> is its millisecond timestamp; a field that may be unset is an
    \<open>option\<close>.
  \<^item> Every source of non-determinism is an explicit argument: the clock
    (\<^verbatim>\<open>Date.now()\<close>), the draws of \<^verbatim>\<open>Math.random()\<close> (a real in
    \<open>[0, 1)\<close>) and the bytes of \<^verbatim>\<open>crypto.randomBytes\<close>.
\<close>

subsection \<open>Primitive JavaScript values\<close>

datatype jsval = JUndefined | JNull | JBool bool | JNum int | JStr string

text \<open>
  The value stored in a document's \<^verbatim>\<open>content\<close> field: a primitive, or an
  object whose properties hold primitives (the triple that \<^verbatim>\<open>encryptContent\<close>
  returns is such an object).
\<close>

datatype stored = Prim jsval | Obj "(string \<times> jsval) list"

subsection \<open>The schemas\<close>

text \<open>
  The fields that Post and Comment share, then the fields of each. \<open>oid\<close> is the
  document's \<^verbatim>\<open>_id\<close>.
\<close>

record doc =
  oid :: string
  anonId :: "string option"
  content :: stored
  ipHash :: string
  userAgent :: "string option"
  createdAt :: int
  expiresAt :: "int option"
  isDeleted :: bool
  deletedAt :: "int option"
  isFlagged :: bool
  flagCount :: int

record post = doc +
  title :: string
  category :: string
  tags :: "string list"
  likes :: int
  commentCount :: int

record comment = doc +
  postId :: "string option"

text \<open>What a \<^verbatim>\<open>save()\<close> reads from its surroundings: the clock and two draws of
  \<^verbatim>\<open>Math.random()\<close>.\<close>

record save_env =
  now :: int
  rnd1 :: real
  rnd2 :: real

subsection \<open>generateAnonId\<close>

definition prefixes :: "string list" where
  "prefixes = [''Anon'', ''Ghost'', ''Shadow'', ''Phantom'', ''Mystery'', ''Unknown'',
               ''Cipher'', ''Void'']"

definition digit_char :: "nat \<Rightarrow> char" where
  "digit_char d = char_of (48 + d)"

fun nat_to_dec :: "nat \<Rightarrow> string" where
  "nat_to_dec n = (if n < 10 then [digit_char n] else nat_to_dec (n div 10) @ [digit_char (n mod 10)])"

text \<open>The template literal's rendering of an integer.\<close>

definition int_to_dec :: "int \<Rightarrow> string" where
  "int_to_dec i = (if i < 0 then CHR ''-'' # nat_to_dec (nat (- i)) else nat_to_dec (nat i))"

text \<open>
  \<^verbatim>\<open>prefixes[Math.floor(Math.random() * prefixes.length)]\<close>: an index outside the
  array reads \<^verbatim>\<open>undefined\<close>, which the template literal renders as such.
\<close>

definition pick_prefix :: "real \<Rightarrow> string" where
  "pick_prefix r =
     (let i = \<lfloor>r * real (length prefixes)\<rfloor>
      in if 0 \<le> i \<and> i < int (length prefixes) then prefixes ! nat i else ''undefined'')"

text \<open>\<^verbatim>\<open>Math.floor(Math.random() * 9999) + 1000\<close>\<close>

definition pick_number :: "real \<Rightarrow> int" where
  "pick_number r = \<lfloor>r * 9999\<rfloor> + 1000"

text \<open>The static method, the same code in both models; \<open>r1\<close> and \<open>r2\<close> are its
  two draws, in order.\<close>

definition generateAnonId :: "real \<Rightarrow> real \<Rightarrow> string" where
  "generateAnonId r1 r2 = pick_prefix r1 @ int_to_dec (pick_number r2)"

subsection \<open>Pre-save hooks\<close>

text \<open>The hooks, as functions of the document they are run on. \<^verbatim>\<open>!this.anonId\<close>
  holds of an unset label and of the empty string.\<close>

definition falsy_string :: "string option \<Rightarrow> bool" where
  "falsy_string s = (case s of None \<Rightarrow> True | Some t \<Rightarrow> t = [])"

definition sevenDays :: int where
  "sevenDays = 7 * 24 * 60 * 60 * 1000"

definition post_pre_save :: "save_env \<Rightarrow> post \<Rightarrow> post" where
  "post_pre_save e p =
     (let p1 = (case expiresAt p of
                  None \<Rightarrow> p\<lparr>expiresAt := Some (now e + sevenDays)\<rparr>
                | Some _ \<Rightarrow> p)
      in if falsy_string (anonId p1)
         then p1\<lparr>anonId := Some (generateAnonId (rnd1 e) (rnd2 e))\<rparr>
         else p1)"

text \<open>\<^verbatim>\<open>Post.findById\<close>: the first document of the collection with that id.\<close>

definition findById :: "post list \<Rightarrow> string \<Rightarrow> post option" where
  "findById posts i = find (\<lambda>p. oid p = i) posts"

definition comment_pre_save :: "post list \<Rightarrow> save_env \<Rightarrow> comment \<Rightarrow> comment" where
  "comment_pre_save posts e c =
     (let c1 = (if falsy_string (anonId c)
                then c\<lparr>anonId := Some (generateAnonId (rnd1 e) (rnd2 e))\<rparr>
                else c)
      in case expiresAt c1 of
           Some _ \<Rightarrow> c1
         | None \<Rightarrow>
             (case postId c1 of
                None \<Rightarrow> c1
              | Some pid \<Rightarrow>
                  (case findById posts pid of
                     Some parent \<Rightarrow> c1\<lparr>expiresAt := expiresAt parent\<rparr>
                   | None \<Rightarrow> c1)))"

subsection \<open>Validation and save\<close>

text \<open>
  \<^verbatim>\<open>save()\<close> validates the document against its schema first, and runs the
  \<^verbatim>\<open>pre('save')\<close> hook only on a document that passed: a document that fails is
  rejected with a ValidationError and the hook never sees it.

  A path of type String holds its value cast to a string: \<^verbatim>\<open>undefined\<close> and
  \<^verbatim>\<open>null\<close> stay as they are, a number or a boolean is written out, and an object
  cannot be cast.
\<close>

datatype save_error = ValidationError

definition cast_string :: "stored \<Rightarrow> string option" where
  "cast_string v =
     (case v of
        Prim (JStr s) \<Rightarrow> Some s
      | Prim (JNum i) \<Rightarrow> Some (int_to_dec i)
      | Prim (JBool b) \<Rightarrow> Some (if b then ''true'' else ''false'')
      | Prim JUndefined \<Rightarrow> None
      | Prim JNull \<Rightarrow> None
      | Obj props \<Rightarrow> None)"

text \<open>\<^verbatim>\<open>required: true\<close> on a String path asks for a string that is not empty;
  \<^verbatim>\<open>maxlength\<close> bounds its length.\<close>

definition required_string :: "nat \<Rightarrow> string option \<Rightarrow> bool" where
  "required_string n v = (case v of None \<Rightarrow> False | Some s \<Rightarrow> s \<noteq> [] \<and> length s \<le> n)"

definition optional_string :: "nat \<Rightarrow> string option \<Rightarrow> bool" where
  "optional_string n v = (case v of None \<Rightarrow> True | Some s \<Rightarrow> length s \<le> n)"

definition category_enum :: "string list" where
  "category_enum = [''general'', ''tech'', ''crypto'', ''society'', ''random'', ''confession'',
                    ''question'']"

text \<open>The validators of the two schemas, path by path: \<^verbatim>\<open>required\<close>,
  \<^verbatim>\<open>maxlength\<close>, \<^verbatim>\<open>enum\<close> and \<^verbatim>\<open>min\<close>.\<close>

definition post_valid :: "post \<Rightarrow> bool" where
  "post_valid p =
     (\<not> falsy_string (anonId p) \<and>
      title p \<noteq> [] \<and> length (title p) \<le> 200 \<and>
      required_string 5000 (cast_string (content p)) \<and>
      category p \<in> set category_enum \<and>
      list_all (\<lambda>t. length t \<le> 50) (tags p) \<and>
      0 \<le> likes p \<and> 0 \<le> commentCount p \<and>
      ipHash p \<noteq> [] \<and>
      optional_string 500 (userAgent p) \<and>
      expiresAt p \<noteq> None)"

definition comment_valid :: "comment \<Rightarrow> bool" where
  "comment_valid c =
     (postId c \<noteq> None \<and>
      \<not> falsy_string (anonId c) \<and>
      required_string 2000 (cast_string (content c)) \<and>
      ipHash c \<noteq> [] \<and>
      optional_string 500 (userAgent c) \<and>
      expiresAt c \<noteq> None)"

text \<open>\<^verbatim>\<open>doc.save()\<close>: the rejection, or the document that is stored.\<close>

definition post_save :: "save_env \<Rightarrow> post \<Rightarrow> save_error + post" where
  "post_save e p = (if post_valid p then Inr (post_pre_save e p) else Inl ValidationError)"

definition comment_save :: "post list \<Rightarrow> save_env \<Rightarrow> comment \<Rightarrow> save_error + comment" where
  "comment_save posts e c =
     (if comment_valid c then Inr (comment_pre_save posts e c) else Inl ValidationError)"

text \<open>The document in memory once \<^verbatim>\<open>save()\<close> has settled: what the hook made of it
  when the hook ran, and the document as it was when the save was rejected.\<close>

definition post_after_save :: "save_env \<Rightarrow> post \<Rightarrow> post" where
  "post_after_save e p = (case post_save e p of Inl err \<Rightarrow> p | Inr saved \<Rightarrow> saved)"

definition comment_after_save :: "post list \<Rightarrow> save_env \<Rightarrow> comment \<Rightarrow> comment" where
  "comment_after_save posts e c = (case comment_save posts e c of Inl err \<Rightarrow> c | Inr saved \<Rightarrow> saved)"

subsection \<open>Instance methods\<close>

text \<open>Each method mutates the document and then saves it. The functions return the
  document as it is in memory after the call.\<close>

definition post_incrementLikes :: "save_env \<Rightarrow> post \<Rightarrow> post" where
  "post_incrementLikes e p = post_after_save e (p\<lparr>likes := likes p + 1\<rparr>)"

definition post_incrementComments :: "save_env \<Rightarrow> post \<Rightarrow> post" where
  "post_incrementComments e p = post_after_save e (p\<lparr>commentCount := commentCount p + 1\<rparr>)"

definition post_decrementComments :: "save_env \<Rightarrow> post \<Rightarrow> post" where
  "post_decrementComments e p =
     post_after_save e (if commentCount p > 0 then p\<lparr>commentCount := commentCount p - 1\<rparr> else p)"

definition post_softDelete :: "save_env \<Rightarrow> post \<Rightarrow> post" where
  "post_softDelete e p = post_after_save e (p\<lparr>isDeleted := True, deletedAt := Some (now e)\<rparr>)"

definition post_flag :: "save_env \<Rightarrow> post \<Rightarrow> post" where
  "post_flag e p =
     (let p1 = p\<lparr>flagCount := flagCount p + 1\<rparr>
      in post_after_save e (if flagCount p1 \<ge> 5 then p1\<lparr>isFlagged := True\<rparr> else p1))"

definition comment_softDelete :: "post list \<Rightarrow> save_env \<Rightarrow> comment \<Rightarrow> comment" where
  "comment_softDelete posts e c =
     comment_after_save posts e (c\<lparr>isDeleted := True, deletedAt := Some (now e)\<rparr>)"

definition comment_flag :: "post list \<Rightarrow> save_env \<Rightarrow> comment \<Rightarrow> comment" where
  "comment_flag posts e c =
     (let c1 = c\<lparr>flagCount := flagCount c + 1\<rparr>
      in comment_after_save posts e (if flagCount c1 \<ge> 3 then c1\<lparr>isFlagged := True\<rparr> else c1))"

text \<open>The operations as data, to speak about every sequence of calls on one document.
  Each call comes with the surroundings it runs in.\<close>

datatype post_op = IncrementLikes | IncrementComments | DecrementComments | SoftDelete | Flag

fun post_apply :: "save_env \<times> post_op \<Rightarrow> post \<Rightarrow> post" where
  "post_apply (e, IncrementLikes) p = post_incrementLikes e p"
| "post_apply (e, IncrementComments) p = post_incrementComments e p"
| "post_apply (e, DecrementComments) p = post_decrementComments e p"
| "post_apply (e, SoftDelete) p = post_softDelete e p"
| "post_apply (e, Flag) p = post_flag e p"

definition post_run :: "(save_env \<times> post_op) list \<Rightarrow> post \<Rightarrow> post" where
  "post_run steps p = fold post_apply steps p"

datatype comment_op = CSoftDelete | CFlag

fun comment_apply :: "post list \<times> save_env \<times> comment_op \<Rightarrow> comment \<Rightarrow> comment" where
  "comment_apply (posts, e, CSoftDelete) c = comment_softDelete posts e c"
| "comment_apply (posts, e, CFlag) c = comment_flag posts e c"

definition comment_run :: "(post list \<times> save_env \<times> comment_op) list \<Rightarrow> comment \<Rightarrow> comment" where
  "comment_run steps c = fold comment_apply steps c"

text \<open>How many of the calls are flag calls.\<close>

definition post_flags :: "(save_env \<times> post_op) list \<Rightarrow> int" where
  "post_flags steps = int (length (filter (\<lambda>s. snd s = Flag) steps))"

definition comment_flags :: "(post list \<times> save_env \<times> comment_op) list \<Rightarrow> int" where
  "comment_flags steps = int (length (filter (\<lambda>s. snd (snd s) = CFlag) steps))"

section \<open>Content cipher\<close>

subsection \<open>Buffers and the hex encoding\<close>

type_synonym buffer = "8 word list"

text \<open>\<^verbatim>\<open>buf.toString('hex')\<close>: two lower-case digits per byte.\<close>

definition hex_digit :: "nat \<Rightarrow> char" where
  "hex_digit n = (if n < 10 then char_of (48 + n) else char_of (87 + n))"

definition byte_to_hex :: "8 word \<Rightarrow> string" where
  "byte_to_hex b = [hex_digit (unat b div 16), hex_digit (unat b mod 16)]"

definition to_hex :: "buffer \<Rightarrow> string" where
  "to_hex bs = concat (map byte_to_hex bs)"

text \<open>
  \<^verbatim>\<open>Buffer.from(s, 'hex')\<close>: digits of either case, two per byte; decoding stops at the
  first pair that is not two hex digits, and a trailing single character is dropped.
\<close>

definition hex_value :: "char \<Rightarrow> nat option" where
  "hex_value c =
     (let n = (of_char c :: nat)
      in if 48 \<le> n \<and> n \<le> 57 then Some (n - 48)
         else if 97 \<le> n \<and> n \<le> 102 then Some (n - 87)
         else if 65 \<le> n \<and> n \<le> 70 then Some (n - 55)
         else None)"

fun from_hex :: "string \<Rightarrow> buffer" where
  "from_hex (a # b # rest) =
     (case hex_value a of
        None \<Rightarrow> []
      | Some h \<Rightarrow>
          (case hex_value b of
             None \<Rightarrow> []
           | Some l \<Rightarrow> of_nat (16 * h + l) # from_hex rest))"
| "from_hex [a] = []"
| "from_hex [] = []"

subsection \<open>The platform's cipher and text codec\<close>

text \<open>
  Node's \<^verbatim>\<open>crypto\<close> module and its UTF-8 codec are not code of this repository; they
  are a parameter of the model.
  \<^item> \<open>gcm_seal password aad plaintext\<close> is what
    \<^verbatim>\<open>createCipher('aes-256-gcm', password)\<close>, \<^verbatim>\<open>setAAD\<close>, \<^verbatim>\<open>update\<close>,
    \<^verbatim>\<open>final\<close> and \<^verbatim>\<open>getAuthTag\<close> produce: the ciphertext and the tag.
    \<^verbatim>\<open>createCipher\<close> takes no initialization vector: it derives key and vector from
    the password alone, so the result is a function of these three arguments.
  \<^item> \<open>gcm_open password aad tag ciphertext\<close> is what \<^verbatim>\<open>createDecipher\<close>,
    \<^verbatim>\<open>setAAD\<close>, \<^verbatim>\<open>setAuthTag\<close>, \<^verbatim>\<open>update\<close> and \<^verbatim>\<open>final\<close> produce:
    the plaintext, or \<open>None\<close> when one of them throws (a tag of a length the cipher
    refuses, a tag that does not authenticate the ciphertext).
  \<^item> \<open>utf8_encode\<close> and \<open>utf8_decode\<close> turn text into bytes and back.
\<close>

record crypto =
  gcm_seal :: "buffer \<Rightarrow> buffer \<Rightarrow> buffer \<Rightarrow> buffer \<times> buffer"
  gcm_open :: "buffer \<Rightarrow> buffer \<Rightarrow> buffer \<Rightarrow> buffer \<Rightarrow> buffer option"
  utf8_encode :: "string \<Rightarrow> buffer"
  utf8_decode :: "buffer \<Rightarrow> string"

text \<open>The two contracts of the platform that the properties below rest on: opening
  what was sealed gives the plaintext back, and decoding encoded text gives the text back
  (true of well-formed Unicode text).\<close>

definition seal_open_inverse :: "crypto \<Rightarrow> bool" where
  "seal_open_inverse L =
     (\<forall>k a p. gcm_open L k a (snd (gcm_seal L k a p)) (fst (gcm_seal L k a p)) = Some p)"

definition well_formed_text :: "crypto \<Rightarrow> string \<Rightarrow> bool" where
  "well_formed_text L p = (utf8_decode L (utf8_encode L p) = p)"

subsection \<open>encryptContent and decryptContent\<close>

datatype js_error = TypeError | CipherError

text \<open>
  \<^verbatim>\<open>Buffer.from(process.env.ENCRYPTION_KEY || crypto.randomBytes(32).toString('hex'), 'hex')\<close>.
  \<open>env_key\<close> is the environment variable (unset, or a string; the empty string is
  falsy) and \<open>fresh\<close> the bytes that \<^verbatim>\<open>randomBytes(32)\<close> returns when it is called.
\<close>

definition load_key :: "string option \<Rightarrow> buffer \<Rightarrow> buffer" where
  "load_key env_key fresh =
     from_hex (case env_key of
                 None \<Rightarrow> to_hex fresh
               | Some s \<Rightarrow> if s = [] then to_hex fresh else s)"

definition aad :: "crypto \<Rightarrow> buffer" where
  "aad L = utf8_encode L ''anonforum''"

text \<open>\<open>iv\<close> is what \<^verbatim>\<open>crypto.randomBytes(16)\<close> returns. \<^verbatim>\<open>encryptContent\<close> and
  \<^verbatim>\<open>decryptContent\<close> stand in Post.js and, with the same code, in Comment.js; one
  definition models both.\<close>

definition encryptContent :: "crypto \<Rightarrow> string option \<Rightarrow> buffer \<Rightarrow> buffer \<Rightarrow> string \<Rightarrow> stored" where
  "encryptContent L env_key fresh iv plain =
     (let key = load_key env_key fresh;
          sealed = gcm_seal L key (aad L) (utf8_encode L plain);
          encrypted = to_hex (fst sealed);
          authTag = snd sealed
      in Obj [(''content'', JStr encrypted), (''iv'', JStr (to_hex iv)),
              (''authTag'', JStr (to_hex authTag))])"

text \<open>Reading a property: of \<^verbatim>\<open>undefined\<close> and \<^verbatim>\<open>null\<close> it throws, of another
  primitive it is \<^verbatim>\<open>undefined\<close>.\<close>

definition get_prop :: "stored \<Rightarrow> string \<Rightarrow> js_error + jsval" where
  "get_prop d k =
     (case d of
        Prim v \<Rightarrow> (if v = JUndefined \<or> v = JNull then Inl TypeError else Inr JUndefined)
      | Obj props \<Rightarrow> (case map_of props k of None \<Rightarrow> Inr JUndefined | Some v \<Rightarrow> Inr v))"

text \<open>\<^verbatim>\<open>Buffer.from(v, 'hex')\<close> on a primitive: a string is decoded, anything else is
  a TypeError.\<close>

definition hex_arg :: "jsval \<Rightarrow> js_error + buffer" where
  "hex_arg v = (case v of JStr s \<Rightarrow> Inr (from_hex s) | _ \<Rightarrow> Inl TypeError)"

text \<open>\<^verbatim>\<open>decipher.update(v, 'hex', 'utf8')\<close> on a primitive: a string of odd length is
  refused with a TypeError, a string of even length is decoded as above, anything else
  is a TypeError.\<close>

definition hex_update_arg :: "jsval \<Rightarrow> js_error + buffer" where
  "hex_update_arg v =
     (case v of
        JStr s \<Rightarrow> if odd (length s) then Inl TypeError else Inr (from_hex s)
      | _ \<Rightarrow> Inl TypeError)"

text \<open>The body of the \<^verbatim>\<open>try\<close> block.\<close>

definition decrypt_body :: "crypto \<Rightarrow> string option \<Rightarrow> buffer \<Rightarrow> stored \<Rightarrow> js_error + string" where
  "decrypt_body L env_key fresh d =
     (let key = load_key env_key fresh
      in case get_prop d ''authTag'' of
           Inl e \<Rightarrow> Inl e
         | Inr t \<Rightarrow>
             (case hex_arg t of
                Inl e \<Rightarrow> Inl e
              | Inr tag \<Rightarrow>
                  (case get_prop d ''content'' of
                     Inl e \<Rightarrow> Inl e
                   | Inr c \<Rightarrow>
                       (case hex_update_arg c of
                          Inl e \<Rightarrow> Inl e
                        | Inr ct \<Rightarrow>
                            (case gcm_open L key (aad L) tag ct of
                               None \<Rightarrow> Inl CipherError
                             | Some pt \<Rightarrow> Inr (utf8_decode L pt))))))"

definition placeholder :: string where
  "placeholder = ''[Content could not be decrypted]''"

text \<open>The whole function: \<open>Inr\<close> is a returned string, \<open>Inl\<close> an exception that leaves
  the function.\<close>

definition decryptContent :: "crypto \<Rightarrow> string option \<Rightarrow> buffer \<Rightarrow> stored \<Rightarrow> js_error + string" where
  "decryptContent L env_key fresh d =
     (case decrypt_body L env_key fresh d of
        Inl e \<Rightarrow> Inr placeholder
      | Inr s \<Rightarrow> Inr s)"

text \<open>What \<^verbatim>\<open>decryptContent\<close> hands to the cipher, when its argument is an object
  whose \<^verbatim>\<open>authTag\<close> is a string and whose \<^verbatim>\<open>content\<close> is a string of even
  length: the decoded tag and ciphertext. Every other argument is malformed.\<close>

definition sealed_parts :: "stored \<Rightarrow> (buffer \<times> buffer) option" where
  "sealed_parts d =
     (case d of
        Prim v \<Rightarrow> None
      | Obj props \<Rightarrow>
          (case map_of props ''authTag'' of
             Some (JStr t) \<Rightarrow>
               (case map_of props ''content'' of
                  Some (JStr c) \<Rightarrow> if odd (length c) then None else Some (from_hex t, from_hex c)
                | _ \<Rightarrow> None)
           | _ \<Rightarrow> None))"

text \<open>An instance of the platform with no secrecy at all, to run the functions on
  concrete values: the ciphertext is the plaintext, the tag is password, associated data
  and ciphertext in a row, and the codec maps a character to its byte.\<close>

definition plain_crypto :: crypto where
  "plain_crypto =
     \<lparr>gcm_seal = (\<lambda>k a p. (p, k @ a @ p)),
      gcm_open = (\<lambda>k a t c. if t = k @ a @ c then Some c else None),
      utf8_encode = map (\<lambda>c. of_nat (of_char c)),
      utf8_decode = map (\<lambda>b. char_of (unat b))\<rparr>"

text \<open>
  An instance that treats tags as Node's GCM decipher does when \<^verbatim>\<open>setAuthTag\<close> is
  called and no \<^verbatim>\<open>authTagLength\<close> was given to \<^verbatim>\<open>createDecipher\<close>, which is how
  \<^verbatim>\<open>decryptContent\<close> calls them: the cipher writes a tag of 16 bytes, and the decipher
  accepts a tag of 4, 8 or 12 to 16 bytes when it is the start of that tag. (Here too
  the ciphertext is the plaintext; the tag is made of ciphertext, password and
  associated data.)
\<close>

definition full_tag :: "buffer \<Rightarrow> buffer \<Rightarrow> buffer \<Rightarrow> buffer" where
  "full_tag k a c = take 16 (c @ k @ a @ replicate 16 0)"

definition short_tag_crypto :: crypto where
  "short_tag_crypto =
     \<lparr>gcm_seal = (\<lambda>k a p. (p, full_tag k a p)),
      gcm_open = (\<lambda>k a t c. if length t \<in> set [4, 8, 12, 13, 14, 15, 16] \<and>
                                 t = take (length t) (full_tag k a c)
                              then Some c else None),
      utf8_encode = map (\<lambda>c. of_nat (of_char c)),
      utf8_decode = map (\<lambda>b. char_of (unat b))\<rparr>"

section \<open>Validation rules\<close>

subsection \<open>Character classes\<close>

text \<open>The classes of the regular expressions, on ASCII text: \<^verbatim>\<open>\s\<close> (tab, line feed,
  vertical tab, form feed, carriage return, space), \<^verbatim>\<open>\w\<close>, \<^verbatim>\<open>[A-Z]\<close> and the line
  terminators that \<^verbatim>\<open>.\<close> does not match.\<close>

definition is_space :: "char \<Rightarrow> bool" where
  "is_space c = (let n = (of_char c :: nat) in (9 \<le> n \<and> n \<le> 13) \<or> n = 32)"

definition is_upper :: "char \<Rightarrow> bool" where
  "is_upper c = (let n = (of_char c :: nat) in 65 \<le> n \<and> n \<le> 90)"

definition is_word :: "char \<Rightarrow> bool" where
  "is_word c =
     (let n = (of_char c :: nat)
      in (48 \<le> n \<and> n \<le> 57) \<or> (65 \<le> n \<and> n \<le> 90) \<or> (97 \<le> n \<and> n \<le> 122) \<or> n = 95)"

definition is_line_terminator :: "char \<Rightarrow> bool" where
  "is_line_terminator c = (let n = (of_char c :: nat) in n = 10 \<or> n = 13)"

subsection \<open>The spam patterns\<close>

text \<open>\<^verbatim>\<open>RegExp.prototype.test\<close> searches for a match starting anywhere: \<open>somewhere P s\<close>
  holds when \<open>P\<close> holds of some suffix of \<open>s\<close>.\<close>

fun somewhere :: "(string \<Rightarrow> bool) \<Rightarrow> string \<Rightarrow> bool" where
  "somewhere P [] = P []"
| "somewhere P (x # xs) = (P (x # xs) \<or> somewhere P xs)"

text \<open>\<open>copies n w s\<close>: \<open>s\<close> starts with \<open>n\<close> copies of \<open>w\<close> in a row.\<close>

fun copies :: "nat \<Rightarrow> string \<Rightarrow> string \<Rightarrow> bool" where
  "copies 0 w s = True"
| "copies (Suc n) w s = (take (length w) s = w \<and> copies n w (drop (length w) s))"

text \<open>\<^verbatim>\<open>/(.)\1{n,}/\<close> at the start of \<open>s\<close>: a character that is not a line terminator,
  then at least \<open>n\<close> more copies of it.\<close>

definition repeated_char_at :: "nat \<Rightarrow> string \<Rightarrow> bool" where
  "repeated_char_at n s =
     (case s of [] \<Rightarrow> False | c # rest \<Rightarrow> \<not> is_line_terminator c \<and> copies n [c] rest)"

text \<open>\<^verbatim>\<open>/[A-Z]{n,}/\<close> at the start of \<open>s\<close>.\<close>

definition caps_at :: "nat \<Rightarrow> string \<Rightarrow> bool" where
  "caps_at n s = (n \<le> length s \<and> list_all is_upper (take n s))"

text \<open>\<^verbatim>\<open>https?:\/\/\<close> at the start of \<open>s\<close>: what follows it, if it matches.\<close>

definition strip_prefix :: "string \<Rightarrow> string \<Rightarrow> string option" where
  "strip_prefix w s = (if take (length w) s = w then Some (drop (length w) s) else None)"

definition url_scheme :: "string \<Rightarrow> string option" where
  "url_scheme s =
     (case strip_prefix ''https://'' s of
        Some rest \<Rightarrow> Some rest
      | None \<Rightarrow> strip_prefix ''http://'' s)"

text \<open>
  \<^verbatim>\<open>/(https?:\/\/[^\s]+){n,}/\<close> at the start of \<open>s\<close>. The group repeats with nothing
  between its copies: \<open>urls_at n s\<close> asks for \<open>n\<close> copies from \<open>s\<close> on, and
  \<open>url_rest n s\<close> is the state inside \<^verbatim>\<open>[^\s]+\<close> after its first character, where the
  match may go on to the next copy or take one more character that is not white space.
\<close>

fun urls_at :: "nat \<Rightarrow> string \<Rightarrow> bool" and url_rest :: "nat \<Rightarrow> string \<Rightarrow> bool" where
  "urls_at 0 s = True"
| "urls_at (Suc n) s =
     (case url_scheme s of
        None \<Rightarrow> False
      | Some [] \<Rightarrow> False
      | Some (c # rest) \<Rightarrow> \<not> is_space c \<and> url_rest n rest)"
| "url_rest n [] = urls_at n []"
| "url_rest n (c # rest) = (urls_at n (c # rest) \<or> (\<not> is_space c \<and> url_rest n rest))"

text \<open>
  \<^verbatim>\<open>/(\b\w+\b\s*){1,3}\1{5,}/\<close>. The back-reference is to the last repetition of the
  group, and a match with several repetitions holds a match with one, so one is all a
  search has to try. \<open>word_repeat_at s\<close> is the group at the start of \<open>s\<close>, \<open>s\<close> standing
  at a word boundary: the whole run of word characters (the second \<^verbatim>\<open>\b\<close> lets the
  run end nowhere else), then \<open>m\<close> of the white space characters that follow, for some \<open>m\<close>,
  then five more copies of the text so matched.
\<close>

definition word_repeat_at :: "string \<Rightarrow> bool" where
  "word_repeat_at s =
     (let w = takeWhile is_word s;
          rest = dropWhile is_word s;
          gap = takeWhile is_space rest
      in w \<noteq> [] \<and>
         list_ex (\<lambda>m. copies 5 (w @ take m gap) (drop m rest)) [0 ..< Suc (length gap)])"

text \<open>The search for it: \<open>prev\<close> tells whether the character before \<open>s\<close> is a word
  character, which decides the first \<^verbatim>\<open>\b\<close>.\<close>

fun repeated_words :: "bool \<Rightarrow> string \<Rightarrow> bool" where
  "repeated_words prev [] = False"
| "repeated_words prev (c # rest) =
     ((\<not> prev \<and> is_word c \<and> word_repeat_at (c # rest)) \<or> repeated_words (is_word c) rest)"

subsection \<open>The custom validators of the content field\<close>

text \<open>The patterns are tried in order and the first that matches throws; \<open>Inl\<close> is the
  thrown message, \<open>Inr True\<close> the return value.\<close>

definition post_spam_patterns :: "(string \<Rightarrow> bool) list" where
  "post_spam_patterns =
     [somewhere (repeated_char_at 10), somewhere (urls_at 3), somewhere (caps_at 20),
      repeated_words False]"

definition comment_spam_patterns :: "(string \<Rightarrow> bool) list" where
  "comment_spam_patterns =
     [somewhere (repeated_char_at 10), somewhere (urls_at 2), somewhere (caps_at 15)]"

definition post_content_custom :: "string \<Rightarrow> string + bool" where
  "post_content_custom v =
     (if list_ex (\<lambda>pattern. pattern v) post_spam_patterns
      then Inl ''Content appears to be spam'' else Inr True)"

definition comment_content_custom :: "string \<Rightarrow> string + bool" where
  "comment_content_custom v =
     (if list_ex (\<lambda>pattern. pattern v) comment_spam_patterns
      then Inl ''Comment appears to be spam'' else Inr True)"

text \<open>The chain on \<^verbatim>\<open>body('content')\<close>: the length rule, then the custom rule; every
  rule runs, and the messages of those that fail are collected.\<close>

definition post_content_errors :: "string \<Rightarrow> string list" where
  "post_content_errors v =
     (if 10 \<le> length v \<and> length v \<le> 5000 then []
      else [''Content must be between 10 and 5000 characters'']) @
     (case post_content_custom v of Inl msg \<Rightarrow> [msg] | Inr _ \<Rightarrow> [])"

definition comment_content_errors :: "string \<Rightarrow> string list" where
  "comment_content_errors v =
     (if 1 \<le> length v \<and> length v \<le> 2000 then []
      else [''Comment must be between 1 and 2000 characters'']) @
     (case comment_content_custom v of Inl msg \<Rightarrow> [msg] | Inr _ \<Rightarrow> [])"

section \<open>Responses and read routes\<close>

subsection \<open>JSON values\<close>

datatype json = JVal jsval | JDate int | JArr "json list" | JObject "(string \<times> json) list"

type_synonym object = "(string \<times> json) list"

definition has_field :: "string \<Rightarrow> object \<Rightarrow> bool" where
  "has_field k ob = (map_of ob k \<noteq> None)"

text \<open>Assigning a property (also what a later property of an object literal does to a
  spread one) and \<^verbatim>\<open>delete\<close>.\<close>

fun set_field :: "string \<Rightarrow> json \<Rightarrow> object \<Rightarrow> object" where
  "set_field k v [] = [(k, v)]"
| "set_field k v (kv # rest) = (if fst kv = k then (k, v) # rest else kv # set_field k v rest)"

definition delete_field :: "string \<Rightarrow> object \<Rightarrow> object" where
  "delete_field k ob = filter (\<lambda>kv. fst kv \<noteq> k) ob"

definition stored_json :: "stored \<Rightarrow> json" where
  "stored_json d =
     (case d of Prim v \<Rightarrow> JVal v | Obj props \<Rightarrow> JObject (map (\<lambda>kv. (fst kv, JVal (snd kv))) props))"

definition opt_field :: "string \<Rightarrow> ('a \<Rightarrow> json) \<Rightarrow> 'a option \<Rightarrow> object" where
  "opt_field k f v = (case v of None \<Rightarrow> [] | Some x \<Rightarrow> [(k, f x)])"

text \<open>A document as a plain object, every stored field with its value: what a
  \<^verbatim>\<open>lean()\<close> query yields, and the \<^verbatim>\<open>ret\<close> that a \<^verbatim>\<open>toJSON\<close> transform is given.
  A field that is unset is absent. (The \<^verbatim>\<open>updatedAt\<close> stamp that the schema option
  \<^verbatim>\<open>timestamps\<close> adds is left out.)\<close>

definition lean_post :: "post \<Rightarrow> object" where
  "lean_post p =
     [(''_id'', JVal (JStr (oid p)))] @
     opt_field ''anonId'' (\<lambda>s. JVal (JStr s)) (anonId p) @
     [(''title'', JVal (JStr (title p))),
      (''content'', stored_json (content p)),
      (''category'', JVal (JStr (category p))),
      (''tags'', JArr (map (\<lambda>t. JVal (JStr t)) (tags p))),
      (''likes'', JVal (JNum (likes p))),
      (''commentCount'', JVal (JNum (commentCount p))),
      (''ipHash'', JVal (JStr (ipHash p)))] @
     opt_field ''userAgent'' (\<lambda>s. JVal (JStr s)) (userAgent p) @
     [(''createdAt'', JDate (createdAt p))] @
     opt_field ''expiresAt'' JDate (expiresAt p) @
     [(''isDeleted'', JVal (JBool (isDeleted p)))] @
     opt_field ''deletedAt'' JDate (deletedAt p) @
     [(''isFlagged'', JVal (JBool (isFlagged p))),
      (''flagCount'', JVal (JNum (flagCount p)))]"

definition lean_comment :: "comment \<Rightarrow> object" where
  "lean_comment c =
     [(''_id'', JVal (JStr (oid c)))] @
     opt_field ''postId'' (\<lambda>s. JVal (JStr s)) (postId c) @
     opt_field ''anonId'' (\<lambda>s. JVal (JStr s)) (anonId c) @
     [(''content'', stored_json (content c)),
      (''ipHash'', JVal (JStr (ipHash c)))] @
     opt_field ''userAgent'' (\<lambda>s. JVal (JStr s)) (userAgent c) @
     [(''createdAt'', JDate (createdAt c))] @
     opt_field ''expiresAt'' JDate (expiresAt c) @
     [(''isDeleted'', JVal (JBool (isDeleted c)))] @
     opt_field ''deletedAt'' JDate (deletedAt c) @
     [(''isFlagged'', JVal (JBool (isFlagged c))),
      (''flagCount'', JVal (JNum (flagCount c)))]"

subsection \<open>The toJSON transforms\<close>

text \<open>The virtual \<^verbatim>\<open>timeUntilExpiry\<close>; its Vietnamese labels are written as their UTF-8
  bytes.\<close>

definition timeUntilExpiry :: "int \<Rightarrow> 'a doc_scheme \<Rightarrow> jsval" where
  "timeUntilExpiry t d =
     (case expiresAt d of
        None \<Rightarrow> JNull
      | Some e \<Rightarrow>
          (let timeLeft = e - t;
               days = timeLeft div (24 * 60 * 60 * 1000);
               hours = (timeLeft mod (24 * 60 * 60 * 1000)) div (60 * 60 * 1000)
           in if timeLeft \<le> 0 then JStr ''Expired''
              else if days > 0 then JStr (int_to_dec days @ '' ng'' @ [CHR 0xC3, CHR 0xA0] @ ''y'')
              else if hours > 0 then JStr (int_to_dec hours @ '' gi'' @ [CHR 0xE1, CHR 0xBB, CHR 0x9D])
              else JStr (''D'' @ [CHR 0xC6, CHR 0xB0, CHR 0xE1, CHR 0xBB, CHR 0x9B] @ ''i 1 gi'' @
                         [CHR 0xE1, CHR 0xBB, CHR 0x9D])))"

definition post_toJSON_transform :: "int \<Rightarrow> post \<Rightarrow> object \<Rightarrow> object" where
  "post_toJSON_transform t d ret =
     set_field ''timeUntilExpiry'' (JVal (timeUntilExpiry t d))
       (delete_field ''__v'' (delete_field ''userAgent'' (delete_field ''ipHash'' ret)))"

definition comment_toJSON_transform :: "comment \<Rightarrow> object \<Rightarrow> object" where
  "comment_toJSON_transform d ret =
     delete_field ''__v'' (delete_field ''userAgent'' (delete_field ''ipHash'' ret))"

text \<open>\<^verbatim>\<open>doc.toJSON()\<close>: the plain object, transformed.\<close>

definition post_toJSON :: "int \<Rightarrow> post \<Rightarrow> object" where
  "post_toJSON t p = post_toJSON_transform t p (lean_post p)"

definition comment_toJSON :: "comment \<Rightarrow> object" where
  "comment_toJSON c = comment_toJSON_transform c (lean_comment c)"

subsection \<open>Query parameters\<close>

text \<open>
  \<^verbatim>\<open>parseInt\<close> with no radix: leading white space is skipped, then an optional sign, then
  \<^verbatim>\<open>0x\<close> or \<^verbatim>\<open>0X\<close> selects radix 16, then the longest run of digits is read; \<open>None\<close>
  is \<^verbatim>\<open>NaN\<close>. Integers are unbounded here, where a double would round.
\<close>

definition digit_value :: "nat \<Rightarrow> char \<Rightarrow> nat option" where
  "digit_value radix c =
     (case hex_value c of None \<Rightarrow> None | Some d \<Rightarrow> if d < radix then Some d else None)"

definition digits_value :: "nat \<Rightarrow> string \<Rightarrow> nat" where
  "digits_value radix ds =
     foldl (\<lambda>acc c. acc * radix + (case digit_value radix c of None \<Rightarrow> 0 | Some d \<Rightarrow> d)) 0 ds"

definition parseInt :: "string \<Rightarrow> int option" where
  "parseInt s =
     (let s1 = dropWhile is_space s;
          negative = (take 1 s1 = ''-'');
          s2 = (if take 1 s1 = ''-'' \<or> take 1 s1 = ''+'' then drop 1 s1 else s1);
          hex = (take 2 s2 = ''0x'' \<or> take 2 s2 = ''0X'');
          radix = (if hex then 16 else 10);
          s3 = (if hex then drop 2 s2 else s2);
          ds = takeWhile (\<lambda>c. digit_value radix c \<noteq> None) s3
      in if ds = [] then None
         else Some ((if negative then - 1 else 1) * int (digits_value radix ds)))"

text \<open>A query parameter is a string or \<^verbatim>\<open>undefined\<close>, which \<^verbatim>\<open>parseInt\<close> reads as the
  text \<^verbatim>\<open>undefined\<close>.\<close>

definition parseInt_param :: "string option \<Rightarrow> int option" where
  "parseInt_param v = parseInt (case v of None \<Rightarrow> ''undefined'' | Some s \<Rightarrow> s)"

text \<open>\<^verbatim>\<open>x || d\<close> on a number: \<^verbatim>\<open>NaN\<close> and 0 are falsy.\<close>

definition or_default :: "int option \<Rightarrow> int \<Rightarrow> int" where
  "or_default x d = (case x of None \<Rightarrow> d | Some n \<Rightarrow> if n = 0 then d else n)"

definition effective_page :: "string option \<Rightarrow> int" where
  "effective_page v = max 1 (or_default (parseInt_param v) 1)"

definition effective_limit :: "string option \<Rightarrow> int" where
  "effective_limit v = min 50 (max 1 (or_default (parseInt_param v) 20))"

subsection \<open>Queries\<close>

text \<open>\<^verbatim>\<open>expiresAt: { $gt: now }\<close>: a document with no such field does not match.\<close>

definition unexpired :: "int \<Rightarrow> 'a doc_scheme \<Rightarrow> bool" where
  "unexpired t d = (case expiresAt d of None \<Rightarrow> False | Some e \<Rightarrow> t < e)"

text \<open>\<^verbatim>\<open>{ isDeleted: false, isFlagged: false, expiresAt: { $gt: now } }\<close>\<close>

definition live :: "int \<Rightarrow> 'a doc_scheme \<Rightarrow> bool" where
  "live t d = (\<not> isDeleted d \<and> \<not> isFlagged d \<and> unexpired t d)"

text \<open>\<^verbatim>\<open>{ isDeleted: false, expiresAt: { $gt: now } }\<close>\<close>

definition undeleted_unexpired :: "int \<Rightarrow> 'a doc_scheme \<Rightarrow> bool" where
  "undeleted_unexpired t d = (\<not> isDeleted d \<and> unexpired t d)"

text \<open>\<^verbatim>\<open>.sort({ [field]: order })\<close> on one of the three allowed fields. Documents with
  equal keys keep their order in the collection (the store promises no order among
  them).\<close>

definition sort_field :: "string \<Rightarrow> post \<Rightarrow> int" where
  "sort_field name p =
     (if name = ''likes'' then likes p
      else if name = ''commentCount'' then commentCount p
      else createdAt p)"

definition sort_posts :: "string \<Rightarrow> int \<Rightarrow> post list \<Rightarrow> post list" where
  "sort_posts name order ps = sort_key (\<lambda>p. order * sort_field name p) ps"

definition ceil_div :: "int \<Rightarrow> int \<Rightarrow> int" where
  "ceil_div a b = - ((- a) div b)"

text \<open>Mapping a function that may throw over a list: the first exception ends it.\<close>

fun traverse :: "('a \<Rightarrow> 'e + 'b) \<Rightarrow> 'a list \<Rightarrow> 'e + 'b list" where
  "traverse f [] = Inr []"
| "traverse f (x # xs) =
     (case f x of
        Inl e \<Rightarrow> Inl e
      | Inr y \<Rightarrow> (case traverse f xs of Inl e \<Rightarrow> Inl e | Inr ys \<Rightarrow> Inr (y # ys)))"

subsection \<open>GET /api/posts and GET /api/posts/category/:category\<close>

record list_query =
  q_page :: "string option"
  q_limit :: "string option"
  q_category :: "string option"
  q_sort :: "string option"
  q_order :: "string option"

record pagination =
  pg_current :: int
  pg_total :: int
  pg_hasNext :: bool
  pg_hasPrev :: bool

record list_response =
  r_posts :: "object list"
  r_pagination :: pagination
  r_total :: int

text \<open>A response that is not 200: the status and the error message.\<close>

type_synonym http_error = "int \<times> string"

text \<open>What the route reads beside the request and the collection: the cipher, the
  configured key, the bytes that \<^verbatim>\<open>randomBytes(32)\<close> would return in the \<open>i\<close>-th call of
  \<^verbatim>\<open>decryptContent\<close>, and the clock.\<close>

record route_env =
  lib :: crypto
  ENCRYPTION_KEY :: "string option"
  fresh_key :: "nat \<Rightarrow> buffer"
  clock :: int

definition decrypted_content :: "route_env \<Rightarrow> nat \<Rightarrow> stored \<Rightarrow> js_error + json" where
  "decrypted_content E i d =
     (case decryptContent (lib E) (ENCRYPTION_KEY E) (fresh_key E i) d of
        Inl e \<Rightarrow> Inl e
      | Inr s \<Rightarrow> Inr (JVal (JStr s)))"

definition pagination_of :: "int \<Rightarrow> int \<Rightarrow> int \<Rightarrow> pagination" where
  "pagination_of page limit n_total =
     \<lparr>pg_current = page, pg_total = ceil_div n_total limit,
      pg_hasNext = (page < ceil_div n_total limit), pg_hasPrev = (page > 1)\<rparr>"

text \<open>The function that the route maps over the posts it found, to build
  \<^verbatim>\<open>decryptedPosts\<close>; \<open>ip\<close> is a post with its index in the list.\<close>

definition listed_post :: "route_env \<Rightarrow> int \<Rightarrow> int \<Rightarrow> nat \<times> post \<Rightarrow> js_error + object" where
  "listed_post E page pages ip =
     (case decrypted_content E (fst ip) (content (snd ip)) of
        Inl e \<Rightarrow> Inl e
      | Inr decrypted \<Rightarrow>
          Inr (set_field ''currentPage'' (JVal (JNum page))
                (set_field ''totalPages'' (JVal (JNum pages))
                  (set_field ''content'' decrypted (lean_post (snd ip))))))"

definition list_posts :: "route_env \<Rightarrow> list_query \<Rightarrow> post list \<Rightarrow> http_error + list_response" where
  "list_posts E q store =
     (let page = effective_page (q_page q);
          limit = effective_limit (q_limit q);
          skip = (page - 1) * limit;
          sortBy = (case q_sort q of None \<Rightarrow> ''createdAt'' | Some s \<Rightarrow> if s = [] then ''createdAt'' else s);
          sortOrder = (if q_order q = Some ''asc'' then 1 else - 1);
          in_category = (\<lambda>p. case q_category q of
                               None \<Rightarrow> True
                             | Some c \<Rightarrow> if c = [] \<or> c = ''all'' then True else category p = c);
          query = (\<lambda>p. live (clock E) p \<and> in_category p);
          finalSortBy = (if sortBy \<in> set [''createdAt'', ''likes'', ''commentCount''] then sortBy
                         else ''createdAt'');
          found = take (nat limit) (drop (nat skip) (sort_posts finalSortBy sortOrder (filter query store)));
          n_total = int (length (filter query store))
      in case traverse (listed_post E page (ceil_div n_total limit)) (enumerate 0 found) of
           Inl e \<Rightarrow> Inl (500, ''Failed to fetch posts'')
         | Inr decryptedPosts \<Rightarrow>
             Inr \<lparr>r_posts = decryptedPosts, r_pagination = pagination_of page limit n_total,
                  r_total = n_total\<rparr>)"

definition validCategories :: "string list" where
  "validCategories = [''general'', ''tech'', ''crypto'', ''society'', ''random'', ''confession'',
                      ''question'']"

definition category_post :: "route_env \<Rightarrow> nat \<times> post \<Rightarrow> js_error + object" where
  "category_post E ip =
     (case decrypted_content E (fst ip) (content (snd ip)) of
        Inl e \<Rightarrow> Inl e
      | Inr decrypted \<Rightarrow> Inr (set_field ''content'' decrypted (lean_post (snd ip))))"

definition category_posts :: "route_env \<Rightarrow> string \<Rightarrow> list_query \<Rightarrow> post list \<Rightarrow> http_error + list_response" where
  "category_posts E cat q store =
     (let page = effective_page (q_page q);
          limit = effective_limit (q_limit q);
          skip = (page - 1) * limit;
          query = (\<lambda>p. category p = cat \<and> live (clock E) p);
          found = take (nat limit) (drop (nat skip) (sort_posts ''createdAt'' (- 1) (filter query store)));
          n_total = int (length (filter query store))
      in if cat \<notin> set validCategories then Inl (400, ''Invalid category'')
         else
           (case traverse (category_post E) (enumerate 0 found) of
              Inl e \<Rightarrow> Inl (500, ''Failed to fetch posts'')
            | Inr decryptedPosts \<Rightarrow>
                Inr \<lparr>r_posts = decryptedPosts, r_pagination = pagination_of page limit n_total,
                     r_total = n_total\<rparr>))"

subsection \<open>GET /api/posts/:id\<close>

record post_response =
  r_post :: object
  r_comments :: "object list"

text \<open>\<^verbatim>\<open>/^[0-9a-fA-F]{24}$/\<close>\<close>

definition valid_object_id :: "string \<Rightarrow> bool" where
  "valid_object_id s = (length s = 24 \<and> list_all (\<lambda>c. hex_value c \<noteq> None) s)"

text \<open>Two ids written in hex denote the same ObjectId when they decode to the same
  bytes.\<close>

definition same_id :: "string \<Rightarrow> string \<Rightarrow> bool" where
  "same_id a b = (from_hex a = from_hex b)"

definition listed_comment :: "route_env \<Rightarrow> nat \<times> comment \<Rightarrow> js_error + object" where
  "listed_comment E ic =
     (case decrypted_content E (fst ic) (content (snd ic)) of
        Inl e \<Rightarrow> Inl e
      | Inr decrypted \<Rightarrow> Inr (set_field ''content'' decrypted (lean_comment (snd ic))))"

text \<open>\<open>later\<close> is the clock when the comments are queried, after the post was found.\<close>

definition get_post :: "route_env \<Rightarrow> int \<Rightarrow> string \<Rightarrow> post list \<Rightarrow> comment list \<Rightarrow> http_error + post_response" where
  "get_post E later pid posts comments =
     (if \<not> valid_object_id pid then Inl (400, ''Invalid post ID format'')
      else
        (case find (\<lambda>p. same_id (oid p) pid \<and> live (clock E) p) posts of
           None \<Rightarrow> Inl (404, ''Post not found or expired'')
         | Some found_post \<Rightarrow>
             (let found = take 100 (sort_key createdAt
                            (filter (\<lambda>c. (case postId c of None \<Rightarrow> False | Some i \<Rightarrow> same_id i pid) \<and>
                                         live later c) comments))
              in case decrypted_content E 0 (content found_post) of
                   Inl e \<Rightarrow> Inl (500, ''Failed to fetch post'')
                 | Inr decrypted \<Rightarrow>
                     (case traverse (listed_comment E) (enumerate 1 found) of
                        Inl e \<Rightarrow> Inl (500, ''Failed to fetch post'')
                      | Inr decryptedComments \<Rightarrow>
                          Inr \<lparr>r_post = set_field ''content'' decrypted (lean_post found_post),
                               r_comments = decryptedComments\<rparr>))))"

subsection \<open>GET /api/posts/stats/overview\<close>

record stats_response =
  totalPosts :: nat
  totalComments :: nat
  postsToday :: nat
  activeCategories :: nat
  lastUpdated :: int

definition stats_overview :: "int \<Rightarrow> post list \<Rightarrow> comment list \<Rightarrow> stats_response" where
  "stats_overview t posts comments =
     \<lparr>totalPosts = length (filter (undeleted_unexpired t) posts),
      totalComments = length (filter (undeleted_unexpired t) comments),
      postsToday = length (filter (\<lambda>p. undeleted_unexpired t p \<and> t - 24 * 60 * 60 * 1000 \<le> createdAt p) posts),
      activeCategories = length (remdups (map category (filter (undeleted_unexpired t) posts))),
      lastUpdated = t\<rparr>"

section \<open>Concrete documents\<close>

text \<open>A Post and a Comment of the store, and the surroundings of a call, to run the
  functions on.\<close>

definition sample_env :: save_env where
  "sample_env = \<lparr>now = 1700000100000, rnd1 = 1 / 4, rnd2 = 1 / 2\<rparr>"

definition sample_post :: post where
  "sample_post =
     \<lparr>oid = ''65f1c0ffee0000000000a001'', anonId = Some ''Ghost4821'',
      content = Obj [(''content'', JStr ''6869''), (''iv'', JStr ''00''), (''authTag'', JStr ''6b616e6f6e666f72756d6869'')],
      ipHash = ''9f86d081884c7d65'', userAgent = Some ''Mozilla/5.0'',
      createdAt = 1700000000000, expiresAt = Some 1700604800000,
      isDeleted = False, deletedAt = None, isFlagged = False, flagCount = 0,
      title = ''Hello forum'', category = ''general'', tags = [], likes = 0,
      commentCount = 0\<rparr>"

definition sample_comment :: comment where
  "sample_comment =
     \<lparr>oid = ''65f1c0ffee0000000000b001'', anonId = Some ''Void1234'',
      content = Obj [(''content'', JStr ''6f6b''), (''iv'', JStr ''01''), (''authTag'', JStr ''6b616e6f6e666f72756d6f6b'')],
      ipHash = ''9f86d081884c7d65'', userAgent = None,
      createdAt = 1700000050000, expiresAt = Some 1700604800000,
      isDeleted = False, deletedAt = None, isFlagged = False, flagCount = 0,
      postId = Some ''65f1c0ffee0000000000a001''\<rparr>"

text \<open>A Comment as a caller constructs it before \<^verbatim>\<open>save()\<close>: every required path
  set but \<^verbatim>\<open>expiresAt\<close>, and \<^verbatim>\<open>postId\<close> the id of the sample Post.\<close>

definition new_comment :: comment where
  "new_comment =
     \<lparr>oid = ''65f1c0ffee0000000000b002'', anonId = Some ''Cipher2024'',
      content = Prim (JStr ''6f6b''),
      ipHash = ''9f86d081884c7d65'', userAgent = None,
      createdAt = 1700000060000, expiresAt = None,
      isDeleted = False, deletedAt = None, isFlagged = False, flagCount = 0,
      postId = Some ''65f1c0ffee0000000000a001''\<rparr>"

text \<open>A request with no query parameters, and the surroundings of a route with the key
  configured.\<close>

definition no_params :: list_query where
  "no_params = \<lparr>q_page = None, q_limit = None, q_category = None, q_sort = None, q_order = None\<rparr>"

definition sample_route_env :: route_env where
  "sample_route_env =
     \<lparr>lib = plain_crypto, ENCRYPTION_KEY = Some ''6b'', fresh_key = (\<lambda>i. []),
      clock = 1700000100000\<rparr>"

section \<open>Moderation counter\<close>

lemma post_pre_save_flags [simp]:
  "isFlagged (post_pre_save e p) = isFlagged p" "flagCount (post_pre_save e p) = flagCount p"
  by (simp_all add: post_pre_save_def Let_def split: option.splits)

lemma comment_pre_save_flags [simp]:
  "isFlagged (comment_pre_save ps e c) = isFlagged c"
  "flagCount (comment_pre_save ps e c) = flagCount c"
  by (simp_all add: comment_pre_save_def Let_def split: option.splits)

lemma post_after_save_flags [simp]:
  "isFlagged (post_after_save e p) = isFlagged p" "flagCount (post_after_save e p) = flagCount p"
  by (simp_all add: post_after_save_def post_save_def)

lemma comment_after_save_flags [simp]:
  "isFlagged (comment_after_save ps e c) = isFlagged c"
  "flagCount (comment_after_save ps e c) = flagCount c"
  by (simp_all add: comment_after_save_def comment_save_def)

lemma post_apply_flags:
  "flagCount (post_apply s p) = flagCount p + (if snd s = Flag then 1 else 0)"
  "isFlagged (post_apply s p) =
     (isFlagged p \<or> (snd s = Flag \<and> flagCount p + 1 \<ge> 5))"
proof -
  obtain e op where s: "s = (e, op)" by (cases s)
  show "flagCount (post_apply s p) = flagCount p + (if snd s = Flag then 1 else 0)"
    unfolding s
    by (cases op)
      (simp_all add: post_incrementLikes_def post_incrementComments_def
        post_decrementComments_def post_softDelete_def post_flag_def Let_def)
  show "isFlagged (post_apply s p) =
     (isFlagged p \<or> (snd s = Flag \<and> flagCount p + 1 \<ge> 5))"
    unfolding s
    by (cases op)
      (simp_all add: post_incrementLikes_def post_incrementComments_def
        post_decrementComments_def post_softDelete_def post_flag_def Let_def)
qed

lemma comment_apply_flags:
  "flagCount (comment_apply s c) = flagCount c + (if snd (snd s) = CFlag then 1 else 0)"
  "isFlagged (comment_apply s c) =
     (isFlagged c \<or> (snd (snd s) = CFlag \<and> flagCount c + 1 \<ge> 3))"
proof -
  obtain ps e op where s: "s = (ps, e, op)" by (cases s)
  show "flagCount (comment_apply s c) = flagCount c + (if snd (snd s) = CFlag then 1 else 0)"
    unfolding s
    by (cases op) (simp_all add: comment_softDelete_def comment_flag_def Let_def)
  show "isFlagged (comment_apply s c) =
     (isFlagged c \<or> (snd (snd s) = CFlag \<and> flagCount c + 1 \<ge> 3))"
    unfolding s
    by (cases op) (simp_all add: comment_softDelete_def comment_flag_def Let_def)
qed

lemma post_run_flags:
  "flagCount (post_run steps p) = flagCount p + post_flags steps \<and>
   isFlagged (post_run steps p) =
     (isFlagged p \<or> (0 < post_flags steps \<and> flagCount p + post_flags steps \<ge> 5))"
proof (induction steps arbitrary: p)
  case Nil
  show ?case by (simp add: post_run_def post_flags_def)
next
  case (Cons s steps)
  have run: "post_run (s # steps) p = post_run steps (post_apply s p)"
    by (simp add: post_run_def)
  have cnt: "post_flags (s # steps) = (if snd s = Flag then 1 else 0) + post_flags steps"
    by (simp add: post_flags_def)
  have nonneg: "0 \<le> post_flags steps"
    by (simp add: post_flags_def)
  show ?case
    unfolding run cnt using Cons.IH [of "post_apply s p"] nonneg
    by (auto simp add: post_apply_flags)
qed

lemma comment_run_flags:
  "flagCount (comment_run steps c) = flagCount c + comment_flags steps \<and>
   isFlagged (comment_run steps c) =
     (isFlagged c \<or> (0 < comment_flags steps \<and> flagCount c + comment_flags steps \<ge> 3))"
proof (induction steps arbitrary: c)
  case Nil
  show ?case by (simp add: comment_run_def comment_flags_def)
next
  case (Cons s steps)
  have run: "comment_run (s # steps) c = comment_run steps (comment_apply s c)"
    by (simp add: comment_run_def)
  have cnt: "comment_flags (s # steps) = (if snd (snd s) = CFlag then 1 else 0) + comment_flags steps"
    by (simp add: comment_flags_def)
  have nonneg: "0 \<le> comment_flags steps"
    by (simp add: comment_flags_def)
  show ?case
    unfolding run cnt using Cons.IH [of "comment_apply s c"] nonneg
    by (auto simp add: comment_apply_flags)
qed

text \<open>
  Claim C5. Take a Post \<open>p\<close> as the schema creates it (\<open>flagCount = 0\<close>, not
  flagged) and any sequence of method calls on it. After the sequence the flag count is
  the number of flag calls made, and the Post is flagged exactly when at least 5 flag
  calls were made: the call that brings the count from 4 to 5 sets \<open>isFlagged\<close>
  (also on any unflagged Post \<open>q\<close> whose count is 4), and no earlier call does. A Post
  \<open>r\<close> that is flagged, in whatever state, stays flagged under every sequence of
  calls. For Comments \<open>c\<close>, \<open>d\<close>, \<open>f\<close> the same holds with 3 and 2 for 5 and 4.
\<close>

theorem flag_threshold_monotonic:
  "(flagCount p = 0 \<and> \<not> isFlagged p \<longrightarrow>
      flagCount (post_run steps p) = post_flags steps \<and>
      isFlagged (post_run steps p) = (5 \<le> post_flags steps)) \<and>
   (flagCount q = 4 \<and> \<not> isFlagged q \<longrightarrow>
      flagCount (post_flag e q) = 5 \<and> isFlagged (post_flag e q)) \<and>
   (isFlagged r \<longrightarrow> isFlagged (post_run steps r)) \<and>
   (flagCount c = 0 \<and> \<not> isFlagged c \<longrightarrow>
      flagCount (comment_run csteps c) = comment_flags csteps \<and>
      isFlagged (comment_run csteps c) = (3 \<le> comment_flags csteps)) \<and>
   (flagCount d = 2 \<and> \<not> isFlagged d \<longrightarrow>
      flagCount (comment_flag ps e d) = 3 \<and> isFlagged (comment_flag ps e d)) \<and>
   (isFlagged f \<longrightarrow> isFlagged (comment_run csteps f))"
proof -
  have p: "flagCount (post_run steps x) = flagCount x + post_flags steps"
    "isFlagged (post_run steps x) =
       (isFlagged x \<or> (0 < post_flags steps \<and> flagCount x + post_flags steps \<ge> 5))" for x
    using post_run_flags [of steps x] by simp_all
  have c: "flagCount (comment_run csteps y) = flagCount y + comment_flags csteps"
    "isFlagged (comment_run csteps y) =
       (isFlagged y \<or> (0 < comment_flags csteps \<and> flagCount y + comment_flags csteps \<ge> 3))" for y
    using comment_run_flags [of csteps y] by simp_all
  have p5: "flagCount q = 4 \<Longrightarrow> flagCount (post_flag e q) = 5 \<and> isFlagged (post_flag e q)"
    by (simp add: post_flag_def Let_def)
  have c3: "flagCount d = 2 \<Longrightarrow> flagCount (comment_flag ps e d) = 3 \<and> isFlagged (comment_flag ps e d)"
    by (simp add: comment_flag_def Let_def)
  show ?thesis
    using p [of p] p(2) [of r] c [of c] c(2) [of f] p5 c3 by auto
qed

text \<open>A run of C5: five flag calls with a like and a comment in between flag the sample
  Post, four do not; a Post at count 4 is flagged by the next call and stays flagged
  through a soft delete; the same for the sample Comment with three and two calls.\<close>

theorem flag_threshold_monotonic_witness:
  "flagCount sample_post = 0 \<and> \<not> isFlagged sample_post \<and>
   isFlagged (post_run [(sample_env, Flag), (sample_env, Flag), (sample_env, IncrementLikes),
      (sample_env, Flag), (sample_env, IncrementComments), (sample_env, Flag),
      (sample_env, Flag)] sample_post) \<and>
   flagCount (sample_post\<lparr>flagCount := 4\<rparr>) = 4 \<and>
   isFlagged (post_flag sample_env (sample_post\<lparr>flagCount := 4\<rparr>)) \<and>
   isFlagged (sample_post\<lparr>isFlagged := True\<rparr>) \<and>
   isFlagged (post_run [(sample_env, Flag), (sample_env, Flag), (sample_env, IncrementLikes),
      (sample_env, Flag), (sample_env, IncrementComments), (sample_env, Flag),
      (sample_env, Flag)] (sample_post\<lparr>isFlagged := True\<rparr>)) \<and>
   flagCount sample_comment = 0 \<and> \<not> isFlagged sample_comment \<and>
   isFlagged (comment_run [([sample_post], sample_env, CFlag), ([sample_post], sample_env, CFlag),
      ([sample_post], sample_env, CFlag)] sample_comment) \<and>
   flagCount (sample_comment\<lparr>flagCount := 2\<rparr>) = 2 \<and>
   isFlagged (comment_flag [sample_post] sample_env (sample_comment\<lparr>flagCount := 2\<rparr>)) \<and>
   isFlagged (comment_run [([sample_post], sample_env, CFlag), ([sample_post], sample_env, CFlag),
      ([sample_post], sample_env, CFlag)] (sample_comment\<lparr>isFlagged := True\<rparr>))"
  using flag_threshold_monotonic [of sample_post
      "[(sample_env, Flag), (sample_env, Flag), (sample_env, IncrementLikes),
        (sample_env, Flag), (sample_env, IncrementComments), (sample_env, Flag),
        (sample_env, Flag)]"
      "sample_post\<lparr>flagCount := 4\<rparr>" sample_env "sample_post\<lparr>isFlagged := True\<rparr>"
      sample_comment
      "[([sample_post], sample_env, CFlag), ([sample_post], sample_env, CFlag),
        ([sample_post], sample_env, CFlag)]"
      "sample_comment\<lparr>flagCount := 2\<rparr>" "[sample_post]"
      "sample_comment\<lparr>isFlagged := True\<rparr>"]
  by (simp add: sample_post_def sample_comment_def post_flags_def comment_flags_def)

section \<open>Content cipher: properties\<close>

lemma hex_value_hex_digit: "n < 16 \<Longrightarrow> hex_value (hex_digit n) = Some n"
  by (auto simp add: hex_value_def hex_digit_def Let_def)

lemma from_hex_byte: "from_hex (byte_to_hex b @ s) = b # from_hex s"
proof -
  have hi: "unat b div 16 < 16"
    using unsigned_less [of b, where ?'a = nat] by simp
  have lo: "unat b mod 16 < 16" by simp
  have "of_nat (16 * (unat b div 16) + unat b mod 16) = b"
    by simp
  then show ?thesis
    by (simp add: byte_to_hex_def hex_value_hex_digit [OF hi] hex_value_hex_digit [OF lo])
qed

lemma from_hex_to_hex_append: "from_hex (to_hex bs @ s) = bs @ from_hex s"
  by (induction bs) (simp_all add: to_hex_def from_hex_byte)

text \<open>Decoding what \<^verbatim>\<open>toString('hex')\<close> wrote gives the bytes back.\<close>

lemma from_hex_to_hex: "from_hex (to_hex bs) = bs"
  using from_hex_to_hex_append [of bs "[]"] by simp

lemma length_to_hex: "length (to_hex bs) = 2 * length bs"
  by (induction bs) (simp_all add: to_hex_def byte_to_hex_def)

lemma load_key_configured: "k \<noteq> [] \<Longrightarrow> load_key (Some k) f = from_hex k"
  by (simp add: load_key_def)

lemma decryptContent_total: "\<exists>s. decryptContent L k f d = Inr s"
  by (simp add: decryptContent_def split: sum.splits)

lemma plain_crypto_inverse: "seal_open_inverse plain_crypto"
  by (simp add: seal_open_inverse_def plain_crypto_def)

lemma plain_codec: "well_formed_text plain_crypto p"
proof -
  have "char_of (unat (of_nat (of_char c :: nat) :: 8 word)) = c" for c :: char
    by (simp add: unat_of_nat)
  then show ?thesis
    by (simp add: well_formed_text_def plain_crypto_def map_idI)
qed

text \<open>
  Claim C1. With the encryption key configured (\<^verbatim>\<open>ENCRYPTION_KEY\<close> set to a non-empty
  string \<open>k\<close>), \<^verbatim>\<open>decryptContent\<close> applied to the triple that \<^verbatim>\<open>encryptContent\<close>
  returned for a plaintext \<open>p\<close> returns \<open>p\<close>, whatever random bytes either call draws
  and whatever the length of \<open>p\<close>. The platform is taken at its contract: its decipher
  opens what its cipher sealed, and \<open>p\<close> is text that its UTF-8 codec encodes and decodes
  without loss.
\<close>

theorem encrypt_decrypt_roundtrip:
  assumes "seal_open_inverse L" and "well_formed_text L p" and "k \<noteq> []"
  shows "decryptContent L (Some k) f2 (encryptContent L (Some k) f1 iv p) = Inr p"
proof -
  let ?key = "from_hex k"
  let ?sealed = "gcm_seal L ?key (aad L) (utf8_encode L p)"
  have opened: "gcm_open L ?key (aad L) (snd ?sealed) (fst ?sealed) = Some (utf8_encode L p)"
    using assms(1) by (simp add: seal_open_inverse_def)
  have "decrypt_body L (Some k) f2 (encryptContent L (Some k) f1 iv p)
          = Inr (utf8_decode L (utf8_encode L p))"
    using assms(3) opened
    by (simp add: decrypt_body_def encryptContent_def Let_def get_prop_def hex_arg_def
        hex_update_arg_def length_to_hex load_key_configured from_hex_to_hex)
  then show ?thesis
    using assms(2) by (simp add: decryptContent_def well_formed_text_def)
qed

text \<open>A run of C1 on the platform instance \<open>plain_crypto\<close>, with a key of one byte.\<close>

theorem encrypt_decrypt_roundtrip_witness:
  "seal_open_inverse plain_crypto \<and> well_formed_text plain_crypto ''hello forum!'' \<and>
   ''6b'' \<noteq> [] \<and>
   decryptContent plain_crypto (Some ''6b'') []
     (encryptContent plain_crypto (Some ''6b'') [] [0, 1] ''hello forum!'') = Inr ''hello forum!''"
  using encrypt_decrypt_roundtrip [OF plain_crypto_inverse plain_codec,
      of "''6b''" "[]" "[]" "[0, 1]" "''hello forum!''"]
  by (simp add: plain_crypto_inverse plain_codec)

text \<open>
  What does hold of \<^verbatim>\<open>decryptContent\<close> on every platform: it returns a string for every
  argument \<open>d\<close>, so no exception leaves it; it returns the placeholder for every
  malformed argument \<open>m\<close>, and for every argument \<open>t\<close> whose tag and ciphertext the
  platform's decipher refuses.
\<close>

lemma decryptContent_catches:
  "(\<exists>s. decryptContent L k f d = Inr s) \<and>
   (sealed_parts m = None \<longrightarrow> decryptContent L k f m = Inr placeholder) \<and>
   (sealed_parts t = Some (tag, ct) \<and> gcm_open L (load_key k f) (aad L) tag ct = None \<longrightarrow>
      decryptContent L k f t = Inr placeholder)"
proof (intro conjI impI)
  show "\<exists>s. decryptContent L k f d = Inr s" by (rule decryptContent_total)
next
  assume "sealed_parts m = None"
  then have "\<exists>e. decrypt_body L k f m = Inl e"
    by (auto simp add: sealed_parts_def decrypt_body_def get_prop_def hex_arg_def
        hex_update_arg_def Let_def
        split: stored.splits option.splits jsval.splits if_splits)
  then show "decryptContent L k f m = Inr placeholder"
    by (auto simp add: decryptContent_def)
next
  assume "sealed_parts t = Some (tag, ct) \<and> gcm_open L (load_key k f) (aad L) tag ct = None"
  then have "decrypt_body L k f t = Inl CipherError"
    by (auto simp add: sealed_parts_def decrypt_body_def get_prop_def hex_arg_def
        hex_update_arg_def Let_def
        split: stored.splits option.splits jsval.splits if_splits)
  then show "decryptContent L k f t = Inr placeholder"
    by (simp add: decryptContent_def)
qed

text \<open>Ciphertext of odd length, which \<^verbatim>\<open>update\<close> refuses, gives the placeholder on
  every platform.\<close>

lemma odd_content_placeholder:
  "decryptContent L (Some ''6b'') []
     (Obj [(''content'', JStr ''6869a''), (''iv'', JStr ''00''),
           (''authTag'', JStr ''6b616e6f6e666f72756d6869'')]) = Inr placeholder"
  by (simp add: decryptContent_def decrypt_body_def get_prop_def hex_arg_def hex_update_arg_def
      Let_def)

lemma length_full_tag: "length (full_tag k a c) = 16"
proof -
  have "16 \<le> length (c @ k @ a @ replicate 16 (0 :: 8 word))" by simp
  then show ?thesis unfolding full_tag_def by (simp only: length_take min_absorb2)
qed

lemma short_tag_crypto_inverse: "seal_open_inverse short_tag_crypto"
  by (simp add: seal_open_inverse_def short_tag_crypto_def length_full_tag)

text \<open>
  Claim C2 asks that every argument whose \<^verbatim>\<open>authTag\<close> was tampered with gives the
  placeholder. \<^verbatim>\<open>decryptContent\<close> creates its decipher with no \<^verbatim>\<open>authTagLength\<close> and
  hands \<^verbatim>\<open>setAuthTag\<close> whatever the argument holds, so a tag cut short is checked only
  as far as it goes. On the platform instance \<open>short_tag_crypto\<close>, which opens what it
  sealed and accepts short tags as Node does, the triple that \<^verbatim>\<open>encryptContent\<close>
  returns for \<^verbatim>\<open>hi\<close>, with its tag cut from 16 bytes to 4, decrypts to \<^verbatim>\<open>hi\<close>, not to
  the placeholder.
\<close>

theorem cut_tag_decrypts:
  "seal_open_inverse short_tag_crypto \<and>
   encryptContent short_tag_crypto (Some ''6b'') [] [0, 1] ''hi'' =
     Obj [(''content'', JStr ''6869''), (''iv'', JStr ''0001''),
          (''authTag'', JStr ''68696b616e6f6e666f72756d00000000'')] \<and>
   decryptContent short_tag_crypto (Some ''6b'') []
     (Obj [(''content'', JStr ''6869''), (''iv'', JStr ''0001''),
           (''authTag'', JStr ''68696b61'')]) = Inr ''hi'' \<and>
   ''hi'' \<noteq> placeholder"
proof -
  have sealed: "encryptContent short_tag_crypto (Some ''6b'') [] [0, 1] ''hi'' =
     Obj [(''content'', JStr ''6869''), (''iv'', JStr ''0001''),
          (''authTag'', JStr ''68696b616e6f6e666f72756d00000000'')]"
    by code_simp
  have opened: "decryptContent short_tag_crypto (Some ''6b'') []
     (Obj [(''content'', JStr ''6869''), (''iv'', JStr ''0001''),
           (''authTag'', JStr ''68696b61'')]) = Inr ''hi''"
    by code_simp
  have differs: "''hi'' \<noteq> placeholder"
    by (simp add: placeholder_def)
  show ?thesis
    using short_tag_crypto_inverse sealed opened differs by simp
qed

text \<open>
  Claim C3 asks for a different ciphertext on every call. The code draws a fresh
  \<^verbatim>\<open>iv\<close> and returns it, but \<^verbatim>\<open>createCipher\<close> is never given it: with the key
  configured, two calls on the same plaintext return the same \<^verbatim>\<open>content\<close> and the same
  \<^verbatim>\<open>authTag\<close>, whatever bytes they draw.
\<close>

theorem encryptContent_ciphertext_repeats:
  "get_prop (encryptContent L (Some (c # cs)) f1 iv1 p) ''content'' =
   get_prop (encryptContent L (Some (c # cs)) f2 iv2 p) ''content'' \<and>
   get_prop (encryptContent L (Some (c # cs)) f1 iv1 p) ''authTag'' =
   get_prop (encryptContent L (Some (c # cs)) f2 iv2 p) ''authTag''"
  by (simp add: encryptContent_def Let_def get_prop_def load_key_def)

text \<open>The \<^verbatim>\<open>iv\<close> fields do differ when the draws differ: the hex encoding loses
  nothing.\<close>

lemma encryptContent_iv_differs:
  "iv1 \<noteq> iv2 \<Longrightarrow>
   get_prop (encryptContent L k f1 iv1 p) ''iv'' \<noteq> get_prop (encryptContent L k f2 iv2 p) ''iv''"
proof -
  assume ne: "iv1 \<noteq> iv2"
  have "to_hex iv1 \<noteq> to_hex iv2"
  proof
    assume "to_hex iv1 = to_hex iv2"
    then have "from_hex (to_hex iv1) = from_hex (to_hex iv2)" by simp
    then show False using ne by (simp add: from_hex_to_hex)
  qed
  then show ?thesis
    by (simp add: encryptContent_def Let_def get_prop_def)
qed

section \<open>Comment expiry\<close>

text \<open>A save that passes validation finds every path set that a hook would fill, so the
  hooks change nothing: the document in memory after \<^verbatim>\<open>save()\<close> is the document before
  it.\<close>

lemma post_after_save_same: "post_after_save e p = p"
  by (auto simp add: post_after_save_def post_save_def post_valid_def post_pre_save_def Let_def
      split: option.splits)

lemma comment_after_save_same: "comment_after_save posts e c = c"
  by (auto simp add: comment_after_save_def comment_save_def comment_valid_def
      comment_pre_save_def Let_def split: option.splits)

text \<open>A Comment that is saved carries the \<^verbatim>\<open>expiresAt\<close> it was constructed with: the
  parent's date is never copied.\<close>

lemma comment_save_keeps_expiry:
  "comment_save posts e c = Inr saved \<Longrightarrow> expiresAt saved = expiresAt c \<and> expiresAt c \<noteq> None"
  by (auto simp add: comment_save_def comment_valid_def comment_pre_save_def Let_def
      split: if_splits option.splits)

text \<open>
  Claim C6 asks that a Comment created with a reference to an existing Post carry that
  Post's \<^verbatim>\<open>expiresAt\<close>. The hook that copies it runs after validation, and validation
  requires \<^verbatim>\<open>expiresAt\<close>. The Comment \<open>new_comment\<close> refers to the sample Post and has no
  \<^verbatim>\<open>expiresAt\<close>: its save is rejected. Given a date of its own, later than the Post's,
  it is valid, and it is saved with that date.
\<close>

theorem comment_save_never_inherits:
  "postId new_comment = Some (oid sample_post) \<and>
   findById [sample_post] (oid sample_post) = Some sample_post \<and>
   expiresAt sample_post = Some 1700604800000 \<and>
   comment_save [sample_post] sample_env new_comment = Inl ValidationError \<and>
   comment_valid (new_comment\<lparr>expiresAt := Some 1800000000000\<rparr>) \<and>
   (case comment_save [sample_post] sample_env (new_comment\<lparr>expiresAt := Some 1800000000000\<rparr>) of
      Inl err \<Rightarrow> None
    | Inr saved \<Rightarrow> expiresAt saved) = Some 1800000000000"
  by (simp add: comment_save_def comment_valid_def comment_pre_save_def findById_def
      new_comment_def sample_post_def falsy_string_def required_string_def optional_string_def
      cast_string_def Let_def)

section \<open>Anonymous labels\<close>

lemma digit_chars:
  "digit_char 0 = CHR ''0''" "digit_char 1 = CHR ''1''" "digit_char 2 = CHR ''2''"
  "digit_char 3 = CHR ''3''" "digit_char 4 = CHR ''4''" "digit_char 5 = CHR ''5''"
  "digit_char 6 = CHR ''6''" "digit_char 7 = CHR ''7''" "digit_char 8 = CHR ''8''"
  "digit_char 9 = CHR ''9''" "digit_char (Suc 0) = CHR ''1''"
  by code_simp+

text \<open>For every draw the prefix is one of the eight words and the number lies between
  1000 and 10998: \<^verbatim>\<open>Math.floor(Math.random() * 9999)\<close> ranges over 0 to 9998.\<close>

lemma pick_prefix_range: "0 \<le> r \<Longrightarrow> r < 1 \<Longrightarrow> pick_prefix r \<in> set prefixes"
proof -
  assume r: "0 \<le> r" "r < 1"
  have a: "0 \<le> \<lfloor>r * 8\<rfloor>" using r by simp
  have b: "\<lfloor>r * 8\<rfloor> < 8" using r by (simp add: floor_less_iff)
  have len: "length prefixes = 8" by (simp add: prefixes_def)
  have "nat \<lfloor>r * 8\<rfloor> < length prefixes" unfolding len using a b by linarith
  then have member: "prefixes ! nat \<lfloor>r * 8\<rfloor> \<in> set prefixes" by (rule nth_mem)
  have "pick_prefix r = prefixes ! nat \<lfloor>r * 8\<rfloor>"
    using a b len by (simp add: pick_prefix_def Let_def)
  then show ?thesis using member by simp
qed

lemma pick_number_range: "0 \<le> r \<Longrightarrow> r < 1 \<Longrightarrow> 1000 \<le> pick_number r \<and> pick_number r \<le> 10998"
proof -
  assume r: "0 \<le> r" "r < 1"
  have "0 \<le> \<lfloor>r * 9999\<rfloor>" using r by simp
  moreover have "\<lfloor>r * 9999\<rfloor> < 9999" using r by (simp add: floor_less_iff)
  ultimately show ?thesis by (simp add: pick_number_def)
qed

text \<open>
  Claim C7 asks for a 4-digit number between 1000 and 9999. With the draws 0 and 0.95 the
  code returns a label whose number has five digits.
\<close>

theorem generateAnonId_five_digits:
  "generateAnonId 0 (19 / 20) = ''Anon10499''"
  by (simp add: generateAnonId_def pick_prefix_def pick_number_def prefixes_def int_to_dec_def
      digit_chars Let_def)

section \<open>Spam patterns\<close>

text \<open>
  Claim C8 asks that content with three or more URLs (two for a comment) be rejected.
  The pattern only matches URLs that follow one another with nothing between them: a URL
  written four times with spaces between passes the post's custom rule and the whole
  chain on \<^verbatim>\<open>content\<close>, and a URL written twice passes the comment's.
\<close>

theorem spaced_urls_pass_spam_check:
  "post_content_custom ''http://a.co http://a.co http://a.co http://a.co'' = Inr True \<and>
   post_content_errors ''http://a.co http://a.co http://a.co http://a.co'' = [] \<and>
   comment_content_custom ''http://a.co http://a.co'' = Inr True \<and>
   comment_content_errors ''http://a.co http://a.co'' = []"
  by code_simp

text \<open>The same URLs with nothing between them are rejected.\<close>

lemma joined_urls_are_spam:
  "post_content_custom ''http://a.cohttp://a.cohttp://a.cohttp://a.co''
     = Inl ''Content appears to be spam''"
  "comment_content_custom ''http://a.cohttp://a.co'' = Inl ''Comment appears to be spam''"
  by code_simp+

section \<open>Read routes\<close>

lemma effective_page_ge: "1 \<le> effective_page v"
  by (simp add: effective_page_def)

lemma effective_limit_range: "1 \<le> effective_limit v \<and> effective_limit v \<le> 50"
  by (simp add: effective_limit_def)

lemma decrypted_content_total: "\<exists>j. decrypted_content E i d = Inr j"
  using decryptContent_total [of "lib E" "ENCRYPTION_KEY E" "fresh_key E i" d]
  by (auto simp add: decrypted_content_def)

lemma listed_post_total: "\<exists>ob. listed_post E page pages ip = Inr ob"
  using decrypted_content_total [of E "fst ip" "content (snd ip)"]
  by (auto simp add: listed_post_def)

lemma category_post_total: "\<exists>ob. category_post E ip = Inr ob"
  using decrypted_content_total [of E "fst ip" "content (snd ip)"]
  by (auto simp add: category_post_def)

lemma traverse_total:
  "(\<And>x. \<exists>y. f x = Inr y) \<Longrightarrow> \<exists>ys. traverse f xs = Inr ys \<and> length ys = length xs"
proof (induction xs)
  case Nil
  show ?case by simp
next
  case (Cons x xs)
  obtain y where y: "f x = Inr y" using Cons.prems by blast
  obtain ys where ys: "traverse f xs = Inr ys" "length ys = length xs"
    using Cons.IH Cons.prems by blast
  show ?case by (simp add: y ys)
qed

lemma traverse_listed:
  "\<exists>ys. traverse (listed_post E page pages) xs = Inr ys \<and> length ys = length xs"
  by (rule traverse_total) (rule listed_post_total)

lemma traverse_category:
  "\<exists>ys. traverse (category_post E) xs = Inr ys \<and> length ys = length xs"
  by (rule traverse_total) (rule category_post_total)

lemma page_bound: "1 \<le> l \<Longrightarrow> int (length (take (nat l) xs)) \<le> l"
  by simp

lemma list_posts_ok:
  "\<exists>r. list_posts E q store = Inr r \<and>
       int (length (r_posts r)) \<le> effective_limit (q_limit q) \<and>
       pg_current (r_pagination r) = effective_page (q_page q)"
proof -
  have lim: "1 \<le> effective_limit (q_limit q)"
    using effective_limit_range [of "q_limit q"] by simp
  obtain found pages n where shape:
    "list_posts E q store =
       (case traverse (listed_post E (effective_page (q_page q)) pages)
               (enumerate 0 (take (nat (effective_limit (q_limit q))) found)) of
          Inl e \<Rightarrow> Inl (500, ''Failed to fetch posts'')
        | Inr ds \<Rightarrow> Inr \<lparr>r_posts = ds,
              r_pagination = pagination_of (effective_page (q_page q)) (effective_limit (q_limit q)) n,
              r_total = n\<rparr>)"
    unfolding list_posts_def Let_def by blast
  obtain ys where ys:
    "traverse (listed_post E (effective_page (q_page q)) pages)
       (enumerate 0 (take (nat (effective_limit (q_limit q))) found)) = Inr ys"
    "length ys = length (enumerate 0 (take (nat (effective_limit (q_limit q))) found))"
    using traverse_listed by blast
  have "int (length ys) \<le> effective_limit (q_limit q)"
    using page_bound [OF lim, of found] ys(2) by simp
  then show ?thesis
    unfolding shape by (simp add: ys(1) pagination_of_def)
qed

lemma category_posts_ok:
  "category_posts E cat q store = Inl (400, ''Invalid category'') \<or>
   (\<exists>r. category_posts E cat q store = Inr r \<and>
       int (length (r_posts r)) \<le> effective_limit (q_limit q) \<and>
       pg_current (r_pagination r) = effective_page (q_page q))"
proof (cases "cat \<in> set validCategories")
  case False
  then show ?thesis by (simp add: category_posts_def Let_def)
next
  case True
  have lim: "1 \<le> effective_limit (q_limit q)"
    using effective_limit_range [of "q_limit q"] by simp
  obtain found n where shape:
    "category_posts E cat q store =
       (case traverse (category_post E)
               (enumerate 0 (take (nat (effective_limit (q_limit q))) found)) of
          Inl e \<Rightarrow> Inl (500, ''Failed to fetch posts'')
        | Inr ds \<Rightarrow> Inr \<lparr>r_posts = ds,
              r_pagination = pagination_of (effective_page (q_page q)) (effective_limit (q_limit q)) n,
              r_total = n\<rparr>)"
    unfolding category_posts_def Let_def using True by auto
  obtain ys where ys:
    "traverse (category_post E)
       (enumerate 0 (take (nat (effective_limit (q_limit q))) found)) = Inr ys"
    "length ys = length (enumerate 0 (take (nat (effective_limit (q_limit q))) found))"
    using traverse_category by blast
  have "int (length ys) \<le> effective_limit (q_limit q)"
    using page_bound [OF lim, of found] ys(2) by simp
  then show ?thesis
    unfolding shape by (simp add: ys(1) pagination_of_def)
qed

text \<open>
  Claim C10. Whatever the \<^verbatim>\<open>page\<close> and \<^verbatim>\<open>limit\<close> query parameters are (absent, not a
  number, zero, negative, huge), the page the routes use is at least 1 and the page size
  lies between 1 and 50. The list route always answers with a list whose page is that
  page and which holds at most page-size, hence at most 50, posts; the category route
  does the same unless it refuses the category with status 400.
\<close>

theorem page_and_limit_clamped:
  "1 \<le> effective_page (q_page q) \<and>
   1 \<le> effective_limit (q_limit q) \<and> effective_limit (q_limit q) \<le> 50 \<and>
   (\<exists>r. list_posts E q store = Inr r \<and>
        pg_current (r_pagination r) = effective_page (q_page q) \<and>
        int (length (r_posts r)) \<le> effective_limit (q_limit q) \<and>
        length (r_posts r) \<le> 50) \<and>
   (category_posts E cat q store = Inl (400, ''Invalid category'') \<or>
    (\<exists>r. category_posts E cat q store = Inr r \<and>
        pg_current (r_pagination r) = effective_page (q_page q) \<and>
        int (length (r_posts r)) \<le> effective_limit (q_limit q) \<and>
        length (r_posts r) \<le> 50))"
proof -
  have lim: "1 \<le> effective_limit (q_limit q)" "effective_limit (q_limit q) \<le> 50"
    using effective_limit_range [of "q_limit q"] by simp_all
  have fifty: "n \<le> 50" if "int n \<le> effective_limit (q_limit q)" for n
    using that lim(2) by linarith
  obtain r where r: "list_posts E q store = Inr r"
    "int (length (r_posts r)) \<le> effective_limit (q_limit q)"
    "pg_current (r_pagination r) = effective_page (q_page q)"
    using list_posts_ok [of E q store] by blast
  have listing: "\<exists>r. list_posts E q store = Inr r \<and>
        pg_current (r_pagination r) = effective_page (q_page q) \<and>
        int (length (r_posts r)) \<le> effective_limit (q_limit q) \<and>
        length (r_posts r) \<le> 50"
    using r fifty [OF r(2)] by blast
  have by_category: "category_posts E cat q store = Inl (400, ''Invalid category'') \<or>
    (\<exists>r. category_posts E cat q store = Inr r \<and>
        pg_current (r_pagination r) = effective_page (q_page q) \<and>
        int (length (r_posts r)) \<le> effective_limit (q_limit q) \<and>
        length (r_posts r) \<le> 50)"
    using category_posts_ok [of E cat q store] fifty by blast
  show ?thesis
    using effective_page_ge [of "q_page q"] lim listing by_category by simp
qed

text \<open>What the routes that list posts put into a response: every object comes from a
  document of the collection that is live at the time of the query (not deleted, not
  flagged, not expired), carries that document's \<^verbatim>\<open>_id\<close> and its \<^verbatim>\<open>ipHash\<close>, and
  the total counts live documents only.\<close>

lemma traverse_elems:
  "traverse f xs = Inr ys \<Longrightarrow> y \<in> set ys \<Longrightarrow> \<exists>x \<in> set xs. f x = Inr y"
proof (induction xs arbitrary: ys)
  case Nil
  then show ?case by simp
next
  case (Cons x xs)
  then show ?case
    by (auto split: sum.splits)
qed

lemma map_of_set_field_other: "k \<noteq> k' \<Longrightarrow> map_of (set_field k' v ob) k = map_of ob k"
  by (induction ob) auto

lemma lean_post_fields:
  "map_of (lean_post p) ''_id'' = Some (JVal (JStr (oid p)))"
  "map_of (lean_post p) ''ipHash'' = Some (JVal (JStr (ipHash p)))"
  by (simp_all add: lean_post_def opt_field_def split: option.splits)

lemma listed_post_fields:
  "listed_post E page pages ip = Inr ob \<Longrightarrow>
   map_of ob ''_id'' = Some (JVal (JStr (oid (snd ip)))) \<and>
   map_of ob ''ipHash'' = Some (JVal (JStr (ipHash (snd ip))))"
  by (auto simp add: listed_post_def map_of_set_field_other lean_post_fields split: sum.splits)

lemma category_post_fields:
  "category_post E ip = Inr ob \<Longrightarrow>
   map_of ob ''_id'' = Some (JVal (JStr (oid (snd ip)))) \<and>
   map_of ob ''ipHash'' = Some (JVal (JStr (ipHash (snd ip))))"
  by (auto simp add: category_post_def map_of_set_field_other lean_post_fields split: sum.splits)

lemma length_filter_conj:
  "length (filter (\<lambda>x. P x \<and> Q x) xs) \<le> length (filter P xs)"
  "length (filter (\<lambda>x. Q x \<and> P x) xs) \<le> length (filter P xs)"
  by (induction xs) auto

lemma snd_enumerate_in: "ip \<in> set (enumerate k (take m xs)) \<Longrightarrow> snd ip \<in> set xs"
proof -
  assume "ip \<in> set (enumerate k (take m xs))"
  then have "snd ip \<in> snd ` set (enumerate k (take m xs))" by (rule imageI)
  then have "snd ip \<in> set (take m xs)"
    by (simp only: set_map [symmetric] map_snd_enumerate)
  then show ?thesis by (rule in_set_takeD)
qed

lemma list_posts_shape:
  "\<exists>found pages n.
     list_posts E q store =
       (case traverse (listed_post E (effective_page (q_page q)) pages)
               (enumerate 0 (take (nat (effective_limit (q_limit q))) found)) of
          Inl e \<Rightarrow> Inl (500, ''Failed to fetch posts'')
        | Inr ds \<Rightarrow> Inr \<lparr>r_posts = ds,
              r_pagination = pagination_of (effective_page (q_page q)) (effective_limit (q_limit q)) n,
              r_total = n\<rparr>) \<and>
     set found \<subseteq> {p \<in> set store. live (clock E) p} \<and>
     n \<le> int (length (filter (live (clock E)) store))"
  unfolding list_posts_def Let_def
  apply (intro exI conjI)
    apply (rule refl)
   apply (auto simp add: sort_posts_def dest!: in_set_dropD)[1]
  apply (simp add: length_filter_conj)
  done

lemma list_posts_only_live:
  assumes "list_posts E q store = Inr r"
  shows "(\<forall>ob \<in> set (r_posts r). \<exists>p \<in> set store. live (clock E) p \<and>
            map_of ob ''_id'' = Some (JVal (JStr (oid p))) \<and>
            map_of ob ''ipHash'' = Some (JVal (JStr (ipHash p)))) \<and>
         r_total r \<le> int (length (filter (live (clock E)) store))"
proof -
  obtain found pages n where shape:
    "list_posts E q store =
       (case traverse (listed_post E (effective_page (q_page q)) pages)
               (enumerate 0 (take (nat (effective_limit (q_limit q))) found)) of
          Inl e \<Rightarrow> Inl (500, ''Failed to fetch posts'')
        | Inr ds \<Rightarrow> Inr \<lparr>r_posts = ds,
              r_pagination = pagination_of (effective_page (q_page q)) (effective_limit (q_limit q)) n,
              r_total = n\<rparr>)"
    and found: "set found \<subseteq> {p \<in> set store. live (clock E) p}"
    and n: "n \<le> int (length (filter (live (clock E)) store))"
    using list_posts_shape [of E q store] by blast
  from assms shape obtain ds where ds:
    "traverse (listed_post E (effective_page (q_page q)) pages)
       (enumerate 0 (take (nat (effective_limit (q_limit q))) found)) = Inr ds"
    "r_posts r = ds" "r_total r = n"
    by (auto split: sum.splits)
  have "\<exists>p \<in> set store. live (clock E) p \<and>
            map_of ob ''_id'' = Some (JVal (JStr (oid p))) \<and>
            map_of ob ''ipHash'' = Some (JVal (JStr (ipHash p)))" if mem: "ob \<in> set ds" for ob
  proof -
    obtain ip where ip: "ip \<in> set (enumerate 0 (take (nat (effective_limit (q_limit q))) found))"
      "listed_post E (effective_page (q_page q)) pages ip = Inr ob"
      using traverse_elems [OF ds(1) mem] by blast
    have "snd ip \<in> set found" using ip(1) by (rule snd_enumerate_in)
    then have "snd ip \<in> set store" "live (clock E) (snd ip)"
      using found by auto
    then show ?thesis
      using listed_post_fields [OF ip(2)] by blast
  qed
  then show ?thesis using ds n by simp
qed


lemma category_posts_shape:
  "cat \<in> set validCategories \<Longrightarrow>
   \<exists>found n.
     category_posts E cat q store =
       (case traverse (category_post E)
               (enumerate 0 (take (nat (effective_limit (q_limit q))) found)) of
          Inl e \<Rightarrow> Inl (500, ''Failed to fetch posts'')
        | Inr ds \<Rightarrow> Inr \<lparr>r_posts = ds,
              r_pagination = pagination_of (effective_page (q_page q)) (effective_limit (q_limit q)) n,
              r_total = n\<rparr>) \<and>
     set found \<subseteq> {p \<in> set store. live (clock E) p} \<and>
     n \<le> int (length (filter (live (clock E)) store))"
  unfolding category_posts_def Let_def
  apply (intro exI conjI)
    apply (simp only: if_not_P not_not refl)
   apply (auto simp add: sort_posts_def dest!: in_set_dropD)[1]
  apply (simp add: length_filter_conj)
  done

lemma category_posts_only_live:
  assumes "category_posts E cat q store = Inr r"
  shows "(\<forall>ob \<in> set (r_posts r). \<exists>p \<in> set store. live (clock E) p \<and>
            map_of ob ''_id'' = Some (JVal (JStr (oid p))) \<and>
            map_of ob ''ipHash'' = Some (JVal (JStr (ipHash p)))) \<and>
         r_total r \<le> int (length (filter (live (clock E)) store))"
proof -
  have valid: "cat \<in> set validCategories"
    using assms by (auto simp add: category_posts_def Let_def split: if_splits)
  obtain found n where shape:
    "category_posts E cat q store =
       (case traverse (category_post E)
               (enumerate 0 (take (nat (effective_limit (q_limit q))) found)) of
          Inl e \<Rightarrow> Inl (500, ''Failed to fetch posts'')
        | Inr ds \<Rightarrow> Inr \<lparr>r_posts = ds,
              r_pagination = pagination_of (effective_page (q_page q)) (effective_limit (q_limit q)) n,
              r_total = n\<rparr>)"
    and found: "set found \<subseteq> {p \<in> set store. live (clock E) p}"
    and n: "n \<le> int (length (filter (live (clock E)) store))"
    using category_posts_shape [OF valid, of E q store] by blast
  from assms shape obtain ds where ds:
    "traverse (category_post E)
       (enumerate 0 (take (nat (effective_limit (q_limit q))) found)) = Inr ds"
    "r_posts r = ds" "r_total r = n"
    by (auto split: sum.splits)
  have "\<exists>p \<in> set store. live (clock E) p \<and>
            map_of ob ''_id'' = Some (JVal (JStr (oid p))) \<and>
            map_of ob ''ipHash'' = Some (JVal (JStr (ipHash p)))" if mem: "ob \<in> set ds" for ob
  proof -
    obtain ip where ip: "ip \<in> set (enumerate 0 (take (nat (effective_limit (q_limit q))) found))"
      "category_post E ip = Inr ob"
      using traverse_elems [OF ds(1) mem] by blast
    have "snd ip \<in> set found" using ip(1) by (rule snd_enumerate_in)
    then have "snd ip \<in> set store" "live (clock E) (snd ip)"
      using found by auto
    then show ?thesis
      using category_post_fields [OF ip(2)] by blast
  qed
  then show ?thesis using ds n by simp
qed

lemma lean_comment_fields:
  "map_of (lean_comment c) ''_id'' = Some (JVal (JStr (oid c)))"
  "map_of (lean_comment c) ''ipHash'' = Some (JVal (JStr (ipHash c)))"
  by (simp_all add: lean_comment_def opt_field_def split: option.splits)

lemma listed_comment_fields:
  "listed_comment E ic = Inr ob \<Longrightarrow>
   map_of ob ''_id'' = Some (JVal (JStr (oid (snd ic)))) \<and>
   map_of ob ''ipHash'' = Some (JVal (JStr (ipHash (snd ic))))"
  by (auto simp add: listed_comment_def map_of_set_field_other lean_comment_fields split: sum.splits)

lemma get_post_only_live:
  assumes "get_post E later pid posts comments = Inr r"
  shows "(\<exists>p \<in> set posts. live (clock E) p \<and>
            map_of (r_post r) ''_id'' = Some (JVal (JStr (oid p))) \<and>
            map_of (r_post r) ''ipHash'' = Some (JVal (JStr (ipHash p)))) \<and>
         (\<forall>ob \<in> set (r_comments r). \<exists>c \<in> set comments. live later c \<and>
            map_of ob ''_id'' = Some (JVal (JStr (oid c))) \<and>
            map_of ob ''ipHash'' = Some (JVal (JStr (ipHash c))))"
proof -
  let ?match = "\<lambda>c. (case postId c of None \<Rightarrow> False | Some i \<Rightarrow> same_id i pid) \<and> live later c"
  let ?found = "sort_key createdAt (filter ?match comments)"
  from assms obtain p decrypted ds where
    p: "find (\<lambda>p. same_id (oid p) pid \<and> live (clock E) p) posts = Some p"
    and d: "decrypted_content E 0 (content p) = Inr decrypted"
    and ds: "traverse (listed_comment E) (enumerate 1 (take 100 ?found)) = Inr ds"
    and r: "r = \<lparr>r_post = set_field ''content'' decrypted (lean_post p), r_comments = ds\<rparr>"
    by (auto simp add: get_post_def Let_def split: if_splits option.splits sum.splits)
  have p_live: "p \<in> set posts" "live (clock E) p"
    using p by (auto simp add: find_Some_iff)
  have post_part: "map_of (r_post r) ''_id'' = Some (JVal (JStr (oid p))) \<and>
            map_of (r_post r) ''ipHash'' = Some (JVal (JStr (ipHash p)))"
    by (simp add: r map_of_set_field_other lean_post_fields)
  have comment_part: "\<exists>c \<in> set comments. live later c \<and>
            map_of ob ''_id'' = Some (JVal (JStr (oid c))) \<and>
            map_of ob ''ipHash'' = Some (JVal (JStr (ipHash c)))" if mem: "ob \<in> set ds" for ob
  proof -
    obtain ic where ic: "ic \<in> set (enumerate 1 (take 100 ?found))" "listed_comment E ic = Inr ob"
      using traverse_elems [OF ds mem] by blast
    have "snd ic \<in> set ?found" using ic(1) by (rule snd_enumerate_in)
    then have "snd ic \<in> set comments" "live later (snd ic)" by auto
    then show ?thesis using listed_comment_fields [OF ic(2)] by blast
  qed
  show ?thesis using p_live post_part comment_part by (auto simp add: r)
qed

text \<open>
  Claim C4 asks that no read path shows or counts a flagged record. The statistics
  route filters on \<^verbatim>\<open>isDeleted\<close> and \<^verbatim>\<open>expiresAt\<close> only: a Post and a Comment that
  are flagged (so not live) and neither deleted nor expired are both counted.
\<close>

theorem stats_count_flagged:
  "\<not> live 1700000100000 (sample_post\<lparr>isFlagged := True, flagCount := 5\<rparr>) \<and>
   \<not> live 1700000100000 (sample_comment\<lparr>isFlagged := True, flagCount := 3\<rparr>) \<and>
   totalPosts (stats_overview 1700000100000 [sample_post\<lparr>isFlagged := True, flagCount := 5\<rparr>]
      [sample_comment\<lparr>isFlagged := True, flagCount := 3\<rparr>]) = 1 \<and>
   totalComments (stats_overview 1700000100000 [sample_post\<lparr>isFlagged := True, flagCount := 5\<rparr>]
      [sample_comment\<lparr>isFlagged := True, flagCount := 3\<rparr>]) = 1"
  by (simp add: stats_overview_def live_def undeleted_unexpired_def unexpired_def sample_post_def
      sample_comment_def)

section \<open>Serialization\<close>

lemma delete_field_absent: "\<not> has_field k (delete_field k ob)"
  by (induction ob) (auto simp add: has_field_def delete_field_def)

lemma has_field_delete_other: "k \<noteq> k' \<Longrightarrow> has_field k (delete_field k' ob) = has_field k ob"
  by (induction ob) (auto simp add: has_field_def delete_field_def)

lemma has_field_set_other: "k \<noteq> k' \<Longrightarrow> has_field k (set_field k' v ob) = has_field k ob"
  by (induction ob) (auto simp add: has_field_def)

text \<open>What the \<^verbatim>\<open>toJSON\<close> transforms return holds neither field, whatever object they
  are given.\<close>

lemma toJSON_strips:
  "\<not> has_field ''ipHash'' (post_toJSON_transform t d ret)"
  "\<not> has_field ''userAgent'' (post_toJSON_transform t d ret)"
  "\<not> has_field ''ipHash'' (comment_toJSON_transform c ret)"
  "\<not> has_field ''userAgent'' (comment_toJSON_transform c ret)"
  by (simp_all add: post_toJSON_transform_def comment_toJSON_transform_def has_field_set_other
      has_field_delete_other delete_field_absent)

text \<open>
  Claim C9 asks that no serialization sent to a client holds \<^verbatim>\<open>ipHash\<close> or
  \<^verbatim>\<open>userAgent\<close>. The list route does not go through \<^verbatim>\<open>toJSON\<close>: it spreads the plain
  objects of a \<^verbatim>\<open>lean()\<close> query into its response. For a collection that holds the
  sample Post it answers with one post, and that post carries both fields with their
  stored values.
\<close>

theorem list_response_exposes_ipHash:
  "(case list_posts sample_route_env no_params [sample_post] of
      Inl e \<Rightarrow> []
    | Inr r \<Rightarrow> map (\<lambda>ob. (map_of ob ''ipHash'', map_of ob ''userAgent'')) (r_posts r)) =
   [(Some (JVal (JStr ''9f86d081884c7d65'')), Some (JVal (JStr ''Mozilla/5.0'')))]"
  by code_simp

end
